theory Spec2Isabelle
  imports
    Main
    "HOL-Library.Word"
    "HOL-Library.Finite_Map"
    "HOL-Library.Char_ord"
    "HOL-Library.List_Lexorder"
    "HOL-Library.Signed_Division"
    "HOL-Library.Multiset"
begin

section \<open>Identifiers and error values\<close>

text \<open>
  A block identifier (\<^verbatim>\<open>ulid.ULID\<close>) is sixteen bytes compared bytewise, that is a
  128-bit unsigned number.
\<close>

type_synonym ulid = "128 word"

text \<open>
  Go's \<^verbatim>\<open>error\<close> values as they occur in \<^verbatim>\<open>pkg/compact/compact.go\<close>.
  \<^item> \<open>Nil\<close> is the nil interface value.
  \<^item> \<open>ErrorString\<close> is an error without a \<^verbatim>\<open>Cause()\<close> method whose type is none of
    the types declared in this file: \<^verbatim>\<open>errors.New\<close>, \<^verbatim>\<open>errors.Errorf\<close>,
    \<^verbatim>\<open>fmt.Errorf\<close>, and the errors of the bucket, the file system and the context.
  \<^item> \<open>WithMessage\<close> is what \<^verbatim>\<open>errors.Wrap\<close> and \<^verbatim>\<open>errors.Wrapf\<close> build around a
    non-nil error; it has a \<^verbatim>\<open>Cause()\<close> method.
  \<^item> \<open>HaltError\<close>, \<open>RetryError\<close>, \<open>Issue347Error\<close>, \<open>OutOfOrderChunksError\<close> are the
    struct types of the file; none of them has a \<^verbatim>\<open>Cause()\<close> method.
  \<^item> \<open>NonNilMultiRootError\<close> is the slice type of \<^verbatim>\<open>pkg/errutil\<close> that
    \<^verbatim>\<open>IsHaltError\<close> and \<^verbatim>\<open>IsRetryError\<close> look for in the cause of an error: the
    list of the member errors of a multi-error. \<^verbatim>\<open>errors.Cause\<close> returns it, so it
    has no \<^verbatim>\<open>Cause()\<close> method. \<^verbatim>\<open>pkg/errutil\<close> is not among the sources; how it
    comes to such a list from the errors added to a \<^verbatim>\<open>MultiError\<close> is not modelled.
\<close>

datatype error =
    Nil
  | ErrorString string
  | WithMessage string error
  | HaltError error
  | RetryError error
  | Issue347Error error ulid
  | OutOfOrderChunksError error ulid
  | NonNilMultiRootError "error list"

text \<open>\<^verbatim>\<open>errors.Wrap(err, msg)\<close> of \<^verbatim>\<open>github.com/pkg/errors\<close>: nil stays nil.\<close>

definition Wrap :: "error \<Rightarrow> string \<Rightarrow> error" where
  "Wrap err msg = (if err = Nil then Nil else WithMessage msg err)"

text \<open>
  \<^verbatim>\<open>errors.Cause\<close> of \<^verbatim>\<open>github.com/pkg/errors\<close> follows \<^verbatim>\<open>Cause()\<close> methods
  until it meets an error that has none. Of the errors above only those built by
  \<^verbatim>\<open>errors.Wrap\<close> have one.
\<close>

fun Cause :: "error \<Rightarrow> error" where
  "Cause (WithMessage msg err) = Cause err"
| "Cause err = err"

definition halt :: "error \<Rightarrow> error" where
  "halt err = HaltError err"

text \<open>The type assertions \<^verbatim>\<open>errors.Cause(err).(HaltError)\<close> and \<^verbatim>\<open>.(RetryError)\<close>.\<close>

fun asHaltError :: "error \<Rightarrow> bool" where
  "asHaltError (HaltError err) = True"
| "asHaltError err = False"

fun asRetryError :: "error \<Rightarrow> bool" where
  "asRetryError (RetryError err) = True"
| "asRetryError err = False"

text \<open>The loop of \<^verbatim>\<open>IsHaltError\<close> over a multi-error: the first halt error returns true.\<close>

fun anyHalt :: "error list \<Rightarrow> bool" where
  "anyHalt [] = False"
| "anyHalt (err # es) = (if asHaltError (Cause err) then True else anyHalt es)"

definition IsHaltError :: "error \<Rightarrow> bool" where
  "IsHaltError err =
     (case Cause err of
        NonNilMultiRootError multiErr \<Rightarrow> anyHalt multiErr
      | c \<Rightarrow> asHaltError c)"

definition retry :: "error \<Rightarrow> error" where
  "retry err = (if IsHaltError err then err else RetryError err)"

definition NewRetryError :: "error \<Rightarrow> error" where
  "NewRetryError err = retry err"

text \<open>The loop of \<^verbatim>\<open>IsRetryError\<close>: the first member that is not retriable returns false.\<close>

fun allRetry :: "error list \<Rightarrow> bool" where
  "allRetry [] = True"
| "allRetry (err # es) = (if \<not> asRetryError (Cause err) then False else allRetry es)"

definition IsRetryError :: "error \<Rightarrow> bool" where
  "IsRetryError err =
     (case Cause err of
        NonNilMultiRootError multiErr \<Rightarrow> allRetry multiErr
      | c \<Rightarrow> asRetryError c)"

fun IsIssue347Error :: "error \<Rightarrow> bool" where
  "IsIssue347Error err = (case Cause err of Issue347Error e i \<Rightarrow> True | _ \<Rightarrow> False)"

fun IsOutOfOrderChunkError :: "error \<Rightarrow> bool" where
  "IsOutOfOrderChunkError err =
     (case Cause err of OutOfOrderChunksError e i \<Rightarrow> True | _ \<Rightarrow> False)"

section \<open>Block metadata and groups\<close>

text \<open>
  \<^verbatim>\<open>tsdb.BlockMeta\<close> and \<^verbatim>\<open>metadata.Thanos\<close>, with the fields the file reads.
  Times, levels and resolutions are \<^verbatim>\<open>int64\<close> (or \<^verbatim>\<open>int\<close>) in the source; the
  functions modelled here compare them and divide by a constant, and never add or
  multiply them, so they are mathematical integers. \<^verbatim>\<open>Stats.NumSamples\<close> is unsigned.
\<close>

record BlockMeta =
  ULID :: ulid
  MinTime :: int
  MaxTime :: int
  NumSamples :: nat
  Level :: int
  Sources :: "ulid list"

text \<open>\<^verbatim>\<open>labels.Labels\<close>: a list of name/value pairs.\<close>

type_synonym Labels = "(string \<times> string) list"

record Thanos =
  Labels :: "(string, string) fmap"
  Resolution :: int
  Source :: string
  SegmentFiles :: "string list"
  Extensions :: "string option"
  IndexStats_ChunkMaxSize :: int
  IndexStats_SeriesMaxSize :: int

record Meta =
  BlockMeta :: BlockMeta
  Thanos :: Thanos

text \<open>
  \<^verbatim>\<open>labels.FromMap\<close> lists the pairs of a map sorted by name, \<^verbatim>\<open>Labels.Map\<close> builds
  the map back, \<^verbatim>\<open>labels.Equal\<close> compares two lists pair by pair.
\<close>

definition FromMap :: "(string, string) fmap \<Rightarrow> Labels" where
  "FromMap m = sorted_list_of_fmap m"

definition Labels_Map :: "Labels \<Rightarrow> (string, string) fmap" where
  "Labels_Map ls = fmap_of_list ls"

definition Equal :: "Labels \<Rightarrow> Labels \<Rightarrow> bool" where
  "Equal ls ms = (ls = ms)"

text \<open>
  \<^verbatim>\<open>sort.Slice\<close> with a \<^verbatim>\<open>less\<close> function. The Go library sorts a slice of at most
  twelve elements by insertion: element \<open>i\<close> is swapped towards the front while it is
  less than its left neighbour. \<open>sink\<close> is that inner loop on the reversed prefix
  (nearest neighbour first), and the model uses it for every length. The library
  does not promise the order of elements that compare equal.
\<close>

fun sink :: "('a \<Rightarrow> 'a \<Rightarrow> bool) \<Rightarrow> 'a \<Rightarrow> 'a list \<Rightarrow> 'a list" where
  "sink lt x [] = [x]"
| "sink lt x (y # ys) = (if lt x y then y # sink lt x ys else x # y # ys)"

definition sort_Slice :: "('a \<Rightarrow> 'a \<Rightarrow> bool) \<Rightarrow> 'a list \<Rightarrow> 'a list" where
  "sort_Slice lt xs = rev (foldl (\<lambda>prefix x. sink lt x prefix) [] xs)"

text \<open>
  \<^verbatim>\<open>Group\<close>, without its logger, bucket handle, mutex, counters and hash function.
  The opaque \<^verbatim>\<open>extensions\<close> payload is a handle, \<open>None\<close> for nil.
\<close>

record Group =
  key :: string
  labels :: Labels
  resolution :: int
  metasByMinTime :: "Meta list"
  acceptMalformedIndex :: bool
  enableVerticalCompaction :: bool
  blockFilesConcurrency :: int
  compactBlocksFetchConcurrency :: int
  extensions :: "string option"

text \<open>
  \<^verbatim>\<open>NewGroup\<close>. The \<^verbatim>\<open>%d\<close> of the message is not rendered.
\<close>

definition NewGroup ::
  "string \<Rightarrow> Labels \<Rightarrow> int \<Rightarrow> bool \<Rightarrow> bool \<Rightarrow> int \<Rightarrow> int \<Rightarrow> error + Group" where
  "NewGroup k lset res acceptMalformed enableVertical filesConc fetchConc =
     (if filesConc \<le> 0
      then Inl (ErrorString
        ''invalid concurrency level (%d), blockFilesConcurrency level must be > 0'')
      else Inr \<lparr> key = k, labels = lset, resolution = res, metasByMinTime = [],
                 acceptMalformedIndex = acceptMalformed,
                 enableVerticalCompaction = enableVertical,
                 blockFilesConcurrency = filesConc,
                 compactBlocksFetchConcurrency = fetchConc,
                 extensions = None \<rparr>)"

definition Key :: "Group \<Rightarrow> string" where
  "Key cg = key cg"

definition SetExtensions :: "Group \<Rightarrow> string option \<Rightarrow> Group" where
  "SetExtensions cg ext = cg \<lparr> extensions := ext \<rparr>"

text \<open>\<^verbatim>\<open>deleteFromGroup\<close>: keep the metas whose ULID is not in \<open>target\<close>.\<close>

definition deleteFromGroup :: "Group \<Rightarrow> ulid set \<Rightarrow> Group" where
  "deleteFromGroup cg target =
     cg \<lparr> metasByMinTime :=
            filter (\<lambda>meta. ULID (BlockMeta meta) \<notin> target) (metasByMinTime cg) \<rparr>"

text \<open>\<^verbatim>\<open>AppendMeta\<close> returns the error and the group as the call leaves it.\<close>

definition AppendMeta :: "Group \<Rightarrow> Meta \<Rightarrow> error \<times> Group" where
  "AppendMeta cg meta =
     (if \<not> Equal (labels cg) (FromMap (Labels (Thanos meta)))
      then (ErrorString ''block and group labels do not match'', cg)
      else if resolution cg \<noteq> Resolution (Thanos meta)
      then (ErrorString ''block and group resolution do not match'', cg)
      else (Nil,
            cg \<lparr> metasByMinTime :=
                   sort_Slice (\<lambda>a b. MinTime (BlockMeta a) < MinTime (BlockMeta b))
                     (metasByMinTime cg @ [meta]) \<rparr>))"

definition IDs :: "Group \<Rightarrow> ulid list" where
  "IDs cg = sort_Slice (\<lambda>a b. a < b) (map (\<lambda>m. ULID (BlockMeta m)) (metasByMinTime cg))"

text \<open>
  \<^verbatim>\<open>DefaultGrouper\<close>, without logger, bucket, counters and hash function.
\<close>

record DefaultGrouper =
  g_acceptMalformedIndex :: bool
  g_enableVerticalCompaction :: bool
  g_blockFilesConcurrency :: int
  g_compactBlocksFetchConcurrency :: int

text \<open>
  \<^verbatim>\<open>Groups\<close>. The argument \<open>blocks\<close> lists the values of the Go map in the order
  the \<^verbatim>\<open>range\<close> loop visits them, which Go leaves open. \<^verbatim>\<open>Thanos.GroupKey\<close> belongs
  to package \<^verbatim>\<open>metadata\<close> and is the parameter \<open>GroupKey\<close>. The result list
  \<open>res\<close> holds the groups in creation order; a group is found in it by its key, as
  the map \<^verbatim>\<open>groups\<close> finds it, and the update of a member replaces it in place, as
  the write through the shared pointer does.
\<close>

fun Groups_loop ::
  "(Thanos \<Rightarrow> string) \<Rightarrow> DefaultGrouper \<Rightarrow> Meta list \<Rightarrow> Group list \<Rightarrow> error + Group list"
where
  "Groups_loop GroupKey g [] res = Inr res"
| "Groups_loop GroupKey g (m # blocks) res =
     (let groupKey = GroupKey (Thanos m) in
      case find (\<lambda>gr. key gr = groupKey) res of
        None \<Rightarrow>
          (case NewGroup groupKey (FromMap (Labels (Thanos m))) (Resolution (Thanos m))
                  (g_acceptMalformedIndex g) (g_enableVerticalCompaction g)
                  (g_blockFilesConcurrency g) (g_compactBlocksFetchConcurrency g) of
             Inl err \<Rightarrow> Inl (Wrap err ''create compaction group'')
           | Inr grp \<Rightarrow>
               (case AppendMeta grp m of
                  (err, grp') \<Rightarrow>
                    if err \<noteq> Nil then Inl (Wrap err ''add compaction group'')
                    else Groups_loop GroupKey g blocks (res @ [grp'])))
      | Some grp \<Rightarrow>
          (case AppendMeta grp m of
             (err, grp') \<Rightarrow>
               if err \<noteq> Nil then Inl (Wrap err ''add compaction group'')
               else Groups_loop GroupKey g blocks
                      (map (\<lambda>gr. if key gr = groupKey then grp' else gr) res)))"

definition Groups ::
  "(Thanos \<Rightarrow> string) \<Rightarrow> DefaultGrouper \<Rightarrow> Meta list \<Rightarrow> error + Group list" where
  "Groups GroupKey g blocks =
     (case Groups_loop GroupKey g blocks [] of
        Inl err \<Rightarrow> Inl err
      | Inr res \<Rightarrow> Inr (sort_Slice (\<lambda>a b. Key a < Key b) res))"

text \<open>
  The groups the code can form: a new group, then any number of \<^verbatim>\<open>AppendMeta\<close>,
  \<^verbatim>\<open>deleteFromGroup\<close> and \<^verbatim>\<open>SetExtensions\<close> calls, which are the only
  writes to a group in the file.
\<close>

inductive formed :: "Group \<Rightarrow> bool" where
  formed_new:
    "NewGroup k lset res acceptMalformed enableVertical filesConc fetchConc = Inr cg
     \<Longrightarrow> formed cg"
| formed_append: "formed cg \<Longrightarrow> AppendMeta cg meta = (err, cg') \<Longrightarrow> formed cg'"
| formed_delete: "formed cg \<Longrightarrow> formed (deleteFromGroup cg target)"
| formed_extensions: "formed cg \<Longrightarrow> formed (SetExtensions cg ext)"

text \<open>The invariant of a group: every member has the group's labels and resolution.\<close>

definition membersAgree :: "Group \<Rightarrow> bool" where
  "membersAgree cg \<longleftrightarrow> (\<forall>b\<in>set (metasByMinTime cg).
       FromMap (Labels (Thanos b)) = labels cg \<and> Resolution (Thanos b) = resolution cg)"

text \<open>
  The order of \<^verbatim>\<open>metasByMinTime\<close> in the words of the specification: ascending by
  \<open>minTime\<close>, ties broken by block identifier.
\<close>

definition spec_sortedByMinTimeThenID :: "Meta list \<Rightarrow> bool" where
  "spec_sortedByMinTimeThenID ms =
     sorted_wrt (\<lambda>a b. MinTime (BlockMeta a) < MinTime (BlockMeta b) \<or>
                        MinTime (BlockMeta a) = MinTime (BlockMeta b) \<and>
                        ULID (BlockMeta a) \<le> ULID (BlockMeta b)) ms"

section \<open>Effects\<close>

text \<open>
  Index diagnoses of \<^verbatim>\<open>block.HealthStats\<close>: what its methods \<^verbatim>\<open>CriticalErr\<close>,
  \<^verbatim>\<open>OutOfOrderChunksErr\<close>, \<^verbatim>\<open>Issue347OutsideChunksErr\<close>, \<^verbatim>\<open>OutOfOrderLabelsErr\<close>
  and \<^verbatim>\<open>AnyErr\<close> return (\<open>None\<close> for nil, otherwise the message), and the two
  size fields.
\<close>

record HealthStats =
  CriticalErr :: "string option"
  OutOfOrderChunksErr :: "string option"
  Issue347OutsideChunksErr :: "string option"
  OutOfOrderLabelsErr :: "string option"
  AnyErr :: "string option"
  ChunkMaxSize :: int
  SeriesMaxSize :: int

text \<open>
  Every call the code makes to a collaborator (file system, bucket, planner,
  compactor, callbacks, counters) is recorded, in order, with what the call
  returned. A failure of the file system or of the bucket is \<open>Some msg\<close> and becomes
  the error \<open>ErrorString msg\<close>: these errors are values of other packages, which
  cannot be of the \<^verbatim>\<open>HaltError\<close> or \<^verbatim>\<open>RetryError\<close> type declared here.
\<close>

datatype event =
    Inc string
  | MkdirAll string "string option"
  | RemoveAll string "string option"
  | Remove string "string option"
  | Plan "Meta list" "Meta list" error
  | PreCompaction "Meta list" error
  | PostCompaction ulid error
  | BlockPopulator error
  | Download ulid string "string option"
  | GatherIndexHealthStats string int int HealthStats "string option"
  | CompactWithBlockPopulator string "string list" "ulid list" error
  | ReadFromDir string "string option"
  | InjectThanos string Thanos "string option"
  | Upload string "string option"
  | CanDelete ulid bool
  | MarkForDeletion ulid string "string option"

fun ofFailure :: "string option \<Rightarrow> error" where
  "ofFailure None = Nil"
| "ofFailure (Some msg) = ErrorString msg"

text \<open>
  The message of an error (\<^verbatim>\<open>Error()\<close>). Format verbs stay as they are written
  in the source: rendering their arguments belongs to \<^verbatim>\<open>fmt\<close>. \<open>None\<close> stands
  where the method dereferences nil, and for a multi-error, whose rendering belongs
  to \<^verbatim>\<open>pkg/errutil\<close>.
\<close>

fun Error :: "error \<Rightarrow> string option" where
  "Error Nil = None"
| "Error (ErrorString msg) = Some msg"
| "Error (WithMessage msg err) = map_option (\<lambda>cause. msg @ '': '' @ cause) (Error err)"
| "Error (HaltError err) = Error err"
| "Error (RetryError err) = Error err"
| "Error (Issue347Error err i) = Error err"
| "Error (OutOfOrderChunksError err i) = Error err"
| "Error (NonNilMultiRootError es) = None"

text \<open>\<^verbatim>\<open>filepath.Join\<close> of a directory and a name (the cleaning of the path is left out).\<close>

definition Join :: "string \<Rightarrow> string \<Rightarrow> string" where
  "Join dir name = dir @ ''/'' @ name"

section \<open>Syncer and garbage collection\<close>

text \<open>
  The syncer's state: the block map and the partial map it guards, and what its two
  filters report (\<^verbatim>\<open>DeletionMarkBlocks()\<close>, of which only the keys are read, and
  \<^verbatim>\<open>DuplicateIDs()\<close>).
\<close>

record Syncer =
  blocks :: "ulid \<rightharpoonup> Meta"
  partial :: "ulid \<rightharpoonup> error"
  DeletionMarkBlocks :: "ulid \<rightharpoonup> string"
  DuplicateIDs :: "ulid list"

text \<open>
  What \<^verbatim>\<open>GarbageCollect\<close> meets outside: \<open>ctx_Err i\<close> is \<^verbatim>\<open>ctx.Err()\<close> at the
  start of iteration \<open>i\<close> of the marking loop, \<open>bkt_MarkForDeletion\<close> the outcome of
  \<^verbatim>\<open>block.MarkForDeletion\<close> for a block and a reason.
\<close>

record GCEnv =
  ctx_Err :: "nat \<Rightarrow> string option"
  bkt_MarkForDeletion :: "ulid \<Rightarrow> string \<Rightarrow> string option"

text \<open>The first loop: duplicates that carry no deletion mark yet.\<close>

fun garbageIDs :: "(ulid \<rightharpoonup> string) \<Rightarrow> ulid list \<Rightarrow> ulid list" where
  "garbageIDs deletionMarkMap [] = []"
| "garbageIDs deletionMarkMap (i # duplicateIDs) =
     (if deletionMarkMap i \<noteq> None then garbageIDs deletionMarkMap duplicateIDs
      else i # garbageIDs deletionMarkMap duplicateIDs)"

text \<open>The second loop, from iteration \<open>i\<close> on.\<close>

fun markGarbage ::
  "GCEnv \<Rightarrow> nat \<Rightarrow> ulid list \<Rightarrow> Syncer \<Rightarrow> error \<times> Syncer \<times> event list" where
  "markGarbage env i [] s = (Nil, s, [Inc ''GarbageCollections''])"
| "markGarbage env i (b # ids) s =
     (case ctx_Err env i of
        Some msg \<Rightarrow> (ErrorString msg, s, [])
      | None \<Rightarrow>
          (case bkt_MarkForDeletion env b ''outdated block'' of
             Some msg \<Rightarrow>
               (retry (Wrap (ErrorString msg) ''mark block %s for deletion''), s,
                [MarkForDeletion b ''outdated block'' (Some msg),
                 Inc ''GarbageCollectionFailures''])
           | None \<Rightarrow>
               (case markGarbage env (Suc i) ids (s \<lparr> blocks := (blocks s)(b := None) \<rparr>) of
                  (err, s', evs) \<Rightarrow>
                    (err, s',
                     [MarkForDeletion b ''outdated block'' None,
                      Inc ''GarbageCollectedBlocks''] @ evs))))"

definition GarbageCollect :: "GCEnv \<Rightarrow> Syncer \<Rightarrow> error \<times> Syncer \<times> event list" where
  "GarbageCollect env s =
     markGarbage env 0 (garbageIDs (DeletionMarkBlocks s) (DuplicateIDs s)) s"

text \<open>The deletion markers a list of calls wrote: successful marks, with their reason.\<close>

fun markersWritten :: "event list \<Rightarrow> (ulid \<times> string) list" where
  "markersWritten [] = []"
| "markersWritten (MarkForDeletion b reason None # evs) = (b, reason) # markersWritten evs"
| "markersWritten (ev # evs) = markersWritten evs"

section \<open>Retention progress\<close>

text \<open>
  A \<^verbatim>\<open>time.Time\<close> as seconds since the Unix epoch and nanoseconds within the second
  (\<open>0 \<le> nsec < 10^9\<close>); a \<^verbatim>\<open>time.Duration\<close> is a number of nanoseconds. The seconds
  of the times built here stay far inside the 64-bit range of the library
  (\<^verbatim>\<open>MaxTime/1000\<close> is below \<open>10^16\<close>, a duration below \<open>10^10\<close> seconds), so they
  are mathematical integers. Go's integer division and remainder truncate towards
  zero: \<open>sdiv\<close> and \<open>smod\<close>.
\<close>

record Time =
  sec :: int
  nsec :: int

definition Unix :: "int \<Rightarrow> Time" where
  "Unix s = \<lparr> sec = s, nsec = 0 \<rparr>"

definition Add :: "Time \<Rightarrow> int \<Rightarrow> Time" where
  "Add t d =
     (let dsec = d sdiv 1000000000;
          n = nsec t + d smod 1000000000
      in if n \<ge> 1000000000 then \<lparr> sec = sec t + (dsec + 1), nsec = n - 1000000000 \<rparr>
         else if n < 0 then \<lparr> sec = sec t + (dsec - 1), nsec = n + 1000000000 \<rparr>
         else \<lparr> sec = sec t + dsec, nsec = n \<rparr>)"

definition After :: "Time \<Rightarrow> Time \<Rightarrow> bool" where
  "After t u = (sec t > sec u \<or> sec t = sec u \<and> nsec t > nsec u)"

text \<open>
  \<^verbatim>\<open>retentionDuration.Seconds() == 0\<close>. \<^verbatim>\<open>Seconds\<close> adds the whole seconds and the
  remaining nanoseconds over \<open>10^9\<close> as floating-point numbers; both have the sign of
  the duration and the first is exact, so the sum is zero exactly when both parts
  are zero.
\<close>

definition Seconds_is_zero :: "int \<Rightarrow> bool" where
  "Seconds_is_zero d = (d sdiv 1000000000 = 0 \<and> d smod 1000000000 = 0)"

text \<open>A Go map of counters with key \<open>k\<close> incremented by \<open>n\<close> (a missing key reads 0).\<close>

fun bump :: "string \<Rightarrow> nat \<Rightarrow> (string \<times> nat) list \<Rightarrow> (string \<times> nat) list" where
  "bump k n [] = [(k, n)]"
| "bump k n ((k', c) # kcs) = (if k = k' then (k', c + n) # kcs else (k', c) # bump k n kcs)"

text \<open>
  The body of the loop of \<^verbatim>\<open>RetentionProgressCalculator.ProgressCalculate\<close> for one
  block: whether \<^verbatim>\<open>groupBlocks[group.key]\<close> is incremented. \<open>now\<close> is what
  \<^verbatim>\<open>time.Now()\<close> returns for this block.
\<close>

definition retentionCounts :: "(int \<rightharpoonup> int) \<Rightarrow> Time \<Rightarrow> Meta \<Rightarrow> bool" where
  "retentionCounts retentionByResolution now m =
     (let retentionDuration =
            (case retentionByResolution (Resolution (Thanos m)) of
               None \<Rightarrow> 0 | Some d \<Rightarrow> d)
      in if Seconds_is_zero retentionDuration then False
         else let maxTime = Unix (MaxTime (BlockMeta m) sdiv 1000)
              in After now (Add maxTime retentionDuration))"

text \<open>
  The two loops over groups and blocks; \<open>clock n\<close> is the reading of \<^verbatim>\<open>time.Now()\<close>
  for the \<open>n\<close>-th block visited. The result is the value the gauge is left with.
\<close>

fun retentionBlocks ::
  "(int \<rightharpoonup> int) \<Rightarrow> (nat \<Rightarrow> Time) \<Rightarrow> string \<Rightarrow> Meta list \<Rightarrow> nat \<Rightarrow> (string \<times> nat) list
     \<Rightarrow> nat \<times> (string \<times> nat) list" where
  "retentionBlocks rbr clock k [] n groupBlocks = (n, groupBlocks)"
| "retentionBlocks rbr clock k (m # ms) n groupBlocks =
     retentionBlocks rbr clock k ms (Suc n)
       (if retentionCounts rbr (clock n) m then bump k 1 groupBlocks else groupBlocks)"

fun retentionGroups ::
  "(int \<rightharpoonup> int) \<Rightarrow> (nat \<Rightarrow> Time) \<Rightarrow> Group list \<Rightarrow> nat \<Rightarrow> (string \<times> nat) list
     \<Rightarrow> (string \<times> nat) list" where
  "retentionGroups rbr clock [] n groupBlocks = groupBlocks"
| "retentionGroups rbr clock (grp # groups) n groupBlocks =
     (case retentionBlocks rbr clock (key grp) (metasByMinTime grp) n groupBlocks of
        (n', groupBlocks') \<Rightarrow> retentionGroups rbr clock groups n' groupBlocks')"

definition RetentionProgressCalculate ::
  "(int \<rightharpoonup> int) \<Rightarrow> (nat \<Rightarrow> Time) \<Rightarrow> Group list \<Rightarrow> nat" where
  "RetentionProgressCalculate rbr clock groups =
     sum_list (map snd (retentionGroups rbr clock groups 0 []))"

text \<open>
  The retention rule in the words of the specification, with \<open>now\<close> in nanoseconds
  since the epoch, the block's \<open>maxTime\<close> in milliseconds and the retention in
  nanoseconds: the block is counted iff \<open>now - maxTime \<ge> retention > 0\<close>.
\<close>

definition spec_retention_counts :: "(int \<rightharpoonup> int) \<Rightarrow> int \<Rightarrow> Meta \<Rightarrow> bool" where
  "spec_retention_counts retentionByResolution now_ns m =
     (let retention = (case retentionByResolution (Resolution (Thanos m)) of
                         None \<Rightarrow> 0 | Some d \<Rightarrow> d)
      in now_ns - MaxTime (BlockMeta m) * 1000000 \<ge> retention \<and> retention > 0)"

definition nanoseconds :: "Time \<Rightarrow> int" where
  "nanoseconds t = sec t * 1000000000 + nsec t"

section \<open>Overlap check\<close>

text \<open>
  Two half-open ranges \<open>[MinTime, MaxTime)\<close> overlap when they share an instant.
\<close>

definition ranges_overlap :: "BlockMeta \<Rightarrow> BlockMeta \<Rightarrow> bool" where
  "ranges_overlap a b = (max (MinTime a) (MinTime b) < min (MaxTime a) (MaxTime b))"

text \<open>
  Modelled from the spec: \<^verbatim>\<open>tsdb.OverlappingBlocks\<close> belongs to the Prometheus
  library and is not among the sources. The specification's overlap check is "scan
  metas in-order; if any \<open>[min,max)\<close> overlap". The scan walks the blocks, sorted by
  \<open>MinTime\<close>, and keeps those that have not ended when the current block starts
  (\<open>pending\<close>); a current block with pending blocks left from before it overlaps
  them and they are reported together. (The library further merges consecutive
  reports and keys them by their common range; only whether there is a report is
  read by the code.)
\<close>

fun overlapScan :: "BlockMeta list \<Rightarrow> BlockMeta list \<Rightarrow> BlockMeta list list" where
  "overlapScan pending [] = []"
| "overlapScan pending (b # bm) =
     (let newPending = filter (\<lambda>p. \<not> MinTime b \<ge> MaxTime p) pending
      in (if newPending = [] then [] else [newPending @ [b]])
         @ overlapScan (newPending @ [b]) bm)"

fun OverlappingBlocks :: "BlockMeta list \<Rightarrow> BlockMeta list list" where
  "OverlappingBlocks [] = []"
| "OverlappingBlocks [b] = []"
| "OverlappingBlocks (b # bm) = overlapScan [b] bm"

text \<open>
  \<^verbatim>\<open>areBlocksOverlapping(include, exclude...)\<close>; \<open>None\<close> is a nil \<^verbatim>\<open>include\<close>.
\<close>

definition areBlocksOverlapping :: "Group \<Rightarrow> Meta option \<Rightarrow> Meta list \<Rightarrow> error" where
  "areBlocksOverlapping cg incl exclude =
     (let excludeMap = set (map (\<lambda>meta. ULID (BlockMeta meta)) exclude);
          metas = map BlockMeta
                    (filter (\<lambda>m. ULID (BlockMeta m) \<notin> excludeMap) (metasByMinTime cg))
                  @ (case incl of None \<Rightarrow> [] | Some i \<Rightarrow> [BlockMeta i]);
          overlaps = OverlappingBlocks (sort_Slice (\<lambda>a b. MinTime a < MinTime b) metas)
      in if length overlaps > 0
         then ErrorString ''overlaps found while gathering blocks. %s''
         else Nil)"

section \<open>Compaction of one group\<close>

text \<open>
  What \<^verbatim>\<open>Group.Compact\<close> meets outside: the file system, the planner, the
  life-cycle callbacks, the bucket, the index checker, the low-level compactor, the
  deletable checker, and the rendering of a block identifier. The planner, the
  callbacks and the compactor are interfaces and return any error; they are taken
  to return (a panic of theirs is not modelled).
\<close>

record Env =
  os_MkdirAll :: "string \<Rightarrow> string option"
  os_RemoveAll :: "string \<Rightarrow> string option"
  os_Remove :: "string \<Rightarrow> string option"
  planner_Plan :: "Meta list \<Rightarrow> string option \<Rightarrow> Meta list \<times> error"
  PreCompactionCallback :: "Group \<Rightarrow> Meta list \<Rightarrow> error"
  PostCompactionCallback :: "Group \<Rightarrow> ulid \<Rightarrow> error"
  GetBlockPopulator :: "Group \<Rightarrow> error"
  block_Download :: "ulid \<Rightarrow> string \<Rightarrow> string option"
  block_GatherIndexHealthStats :: "string \<Rightarrow> int \<Rightarrow> int \<Rightarrow> HealthStats \<times> string option"
  comp_CompactWithBlockPopulator :: "string \<Rightarrow> string list \<Rightarrow> ulid list \<times> error"
  metadata_ReadFromDir :: "string \<Rightarrow> Meta \<times> string option"
  block_GetSegmentFiles :: "string \<Rightarrow> string list"
  metadata_InjectThanos :: "string \<Rightarrow> Thanos \<Rightarrow> Meta \<times> string option"
  block_Upload :: "string \<Rightarrow> string option"
  checker_CanDelete :: "Group \<Rightarrow> ulid \<Rightarrow> bool"
  block_MarkForDeletion :: "ulid \<Rightarrow> string \<Rightarrow> string option"
  ULID_String :: "ulid \<Rightarrow> string"

text \<open>The default callbacks and the default deletable checker.\<close>

fun uniqueSources_loop :: "bool \<Rightarrow> ulid list \<Rightarrow> ulid set \<Rightarrow> error" where
  "uniqueSources_loop vertical [] uniqueSources = Nil"
| "uniqueSources_loop vertical (s # ss) uniqueSources =
     (if s \<in> uniqueSources \<and> \<not> vertical
      then halt (ErrorString ''overlapping sources detected for plan %v'')
      else uniqueSources_loop vertical ss (insert s uniqueSources))"

definition DefaultPreCompactionCallback :: "Group \<Rightarrow> Meta list \<Rightarrow> error" where
  "DefaultPreCompactionCallback cg toCompactBlocks =
     uniqueSources_loop (enableVerticalCompaction cg)
       (concat (map (\<lambda>m. Sources (BlockMeta m)) toCompactBlocks)) {}"

definition DefaultPostCompactionCallback :: "Group \<Rightarrow> ulid \<Rightarrow> error" where
  "DefaultPostCompactionCallback cg blockID = Nil"

definition DefaultCanDelete :: "Group \<Rightarrow> ulid \<Rightarrow> bool" where
  "DefaultCanDelete cg blockID = True"

text \<open>\<^verbatim>\<open>deleteBlock\<close>: remove the local copy, then mark the block if the checker agrees.\<close>

definition deleteBlock :: "Env \<Rightarrow> Group \<Rightarrow> ulid \<Rightarrow> string \<Rightarrow> error \<times> event list" where
  "deleteBlock env cg b bdir =
     (case os_RemoveAll env bdir of
        Some msg \<Rightarrow>
          (Wrap (ErrorString msg) ''remove old block dir %s'', [RemoveAll bdir (Some msg)])
      | None \<Rightarrow>
          if checker_CanDelete env cg b
          then (case block_MarkForDeletion env b ''source of compacted block'' of
                  Some msg \<Rightarrow>
                    (Wrap (ErrorString msg) ''mark block %s for deletion from bucket'',
                     [RemoveAll bdir None, CanDelete b True,
                      MarkForDeletion b ''source of compacted block'' (Some msg)])
                | None \<Rightarrow>
                    (Nil,
                     [RemoveAll bdir None, CanDelete b True,
                      MarkForDeletion b ''source of compacted block'' None]))
          else (Nil, [RemoveAll bdir None, CanDelete b False]))"

text \<open>
  The work of one download task: fetch the block, gather the index diagnoses,
  classify them.
\<close>

definition downloadBlock :: "Env \<Rightarrow> Group \<Rightarrow> string \<Rightarrow> Meta \<Rightarrow> error \<times> event list" where
  "downloadBlock env cg dir meta =
     (let b = ULID (BlockMeta meta);
          bdir = Join dir (ULID_String env b)
      in case block_Download env b bdir of
           Some msg \<Rightarrow>
             (retry (Wrap (ErrorString msg) ''download block %s''),
              [Download b bdir (Some msg)])
         | None \<Rightarrow>
             (case block_GatherIndexHealthStats env (Join bdir ''index'')
                     (MinTime (BlockMeta meta)) (MaxTime (BlockMeta meta)) of
                (stats, failure) \<Rightarrow>
                  ((if failure \<noteq> None
                    then Wrap (ofFailure failure) ''gather index issues for block %s''
                    else if CriticalErr stats \<noteq> None
                    then halt (Wrap (ofFailure (CriticalErr stats))
                      ''block with not healthy index found %s; Compaction level %v; Labels: %v'')
                    else if OutOfOrderChunksErr stats \<noteq> None
                    then OutOfOrderChunksError
                      (Wrap (ofFailure (OutOfOrderChunksErr stats))
                        ''blocks with out-of-order chunks are dropped from compaction:  %s'') b
                    else if Issue347OutsideChunksErr stats \<noteq> None
                    then Issue347Error
                      (Wrap (ofFailure (Issue347OutsideChunksErr stats))
                        ''invalid, but reparable block %s'') b
                    else if \<not> acceptMalformedIndex cg \<and> OutOfOrderLabelsErr stats \<noteq> None
                    then Wrap (ofFailure (OutOfOrderLabelsErr stats))
                      ''block id %s, try running with --debug.accept-malformed-index''
                    else Nil),
                   [Download b bdir None,
                    GatherIndexHealthStats (Join bdir ''index'') (MinTime (BlockMeta meta))
                      (MaxTime (BlockMeta meta)) stats failure])))"

text \<open>
  The download tasks of the plan. The source hands them to an error group of
  bounded concurrency and \<^verbatim>\<open>g.Wait()\<close> returns the first error reported; the
  model runs them one after the other in plan order and stops at the first one
  that fails. When none fails, all have run.
\<close>

fun downloadBlocks :: "Env \<Rightarrow> Group \<Rightarrow> string \<Rightarrow> Meta list \<Rightarrow> error \<times> event list" where
  "downloadBlocks env cg dir [] = (Nil, [])"
| "downloadBlocks env cg dir (m # toCompact) =
     (case downloadBlock env cg dir m of
        (err, evs) \<Rightarrow>
          if err \<noteq> Nil then (err, evs)
          else (case downloadBlocks env cg dir toCompact of
                  (err', evs') \<Rightarrow> (err', evs @ evs')))"

text \<open>
  The branch taken when the compactor returns no block: every planned block
  without samples is deleted; a failure of \<^verbatim>\<open>deleteBlock\<close> is logged and dropped.
\<close>

fun deleteEmptyBlocks :: "Env \<Rightarrow> Group \<Rightarrow> string \<Rightarrow> Meta list \<Rightarrow> event list" where
  "deleteEmptyBlocks env cg dir [] = []"
| "deleteEmptyBlocks env cg dir (meta # toCompact) =
     (if NumSamples (BlockMeta meta) = 0
      then snd (deleteBlock env cg (ULID (BlockMeta meta))
                  (Join dir (ULID_String env (ULID (BlockMeta meta)))))
      else [])
     @ deleteEmptyBlocks env cg dir toCompact"

definition prepend :: "event list \<Rightarrow> error \<times> event list \<Rightarrow> error \<times> event list" where
  "prepend evs r = (fst r, evs @ snd r)"

text \<open>The body of the loop over the result blocks: validate, finalize, upload.\<close>

definition uploadBlock ::
  "Env \<Rightarrow> Group \<Rightarrow> string \<Rightarrow> ulid \<Rightarrow> error \<times> event list" where
  "uploadBlock env cg bdir compID =
     (case block_Upload env bdir of
        Some msg \<Rightarrow>
          (retry (Wrap (ErrorString msg) ''upload of %s failed''), [Upload bdir (Some msg)])
      | None \<Rightarrow>
          (let err = PostCompactionCallback env cg compID
           in (if err \<noteq> Nil
               then retry (Wrap err
                      ''failed to run post compaction callback for result block %s'')
               else Nil,
               [Upload bdir None, PostCompaction compID err])))"

definition finalizeBlock ::
  "Env \<Rightarrow> Group \<Rightarrow> string \<Rightarrow> Meta list \<Rightarrow> ulid \<Rightarrow> error \<times> event list" where
  "finalizeBlock env cg dir toCompact compID =
     (let bdir = Join dir (ULID_String env compID);
          index = Join bdir ''index''
      in case os_Remove env (Join bdir ''tombstones'') of
           Some msg \<Rightarrow>
             (Wrap (ErrorString msg) ''remove tombstones'',
              [Remove (Join bdir ''tombstones'') (Some msg)])
         | None \<Rightarrow>
             prepend [Remove (Join bdir ''tombstones'') None]
              (case metadata_ReadFromDir env bdir of
                 (newMeta, Some msg) \<Rightarrow>
                   (Wrap (ErrorString msg) ''read new meta'', [ReadFromDir bdir (Some msg)])
               | (newMeta, None) \<Rightarrow>
                   prepend [ReadFromDir bdir None]
                    (case block_GatherIndexHealthStats env index
                            (MinTime (BlockMeta newMeta)) (MaxTime (BlockMeta newMeta)) of
                       (stats, failure) \<Rightarrow>
                         prepend [GatherIndexHealthStats index (MinTime (BlockMeta newMeta))
                                    (MaxTime (BlockMeta newMeta)) stats failure]
                          (let err = (if failure \<noteq> None then ofFailure failure
                                      else ofFailure (AnyErr stats))
                           in if \<not> acceptMalformedIndex cg \<and> err \<noteq> Nil
                              then (halt (Wrap err ''invalid result block %s''), [])
                              else
                                (let thanosMeta =
                                       \<lparr> Labels = Labels_Map (labels cg),
                                         Resolution = resolution cg,
                                         Source = ''compactor'',
                                         SegmentFiles = block_GetSegmentFiles env bdir,
                                         Extensions = extensions cg,
                                         IndexStats_ChunkMaxSize =
                                           (if ChunkMaxSize stats > 0
                                            then ChunkMaxSize stats else 0),
                                         IndexStats_SeriesMaxSize =
                                           (if SeriesMaxSize stats > 0
                                            then SeriesMaxSize stats else 0) \<rparr>
                                 in case metadata_InjectThanos env bdir thanosMeta of
                                      (injected, Some msg) \<Rightarrow>
                                        (Wrap (ErrorString msg)
                                           ''failed to finalize the block %s'',
                                         [InjectThanos bdir thanosMeta (Some msg)])
                                    | (injected, None) \<Rightarrow>
                                        prepend [InjectThanos bdir thanosMeta None]
                                         (let overlapErr =
                                                (if \<not> enableVerticalCompaction cg
                                                 then areBlocksOverlapping cg
                                                        (Some injected) toCompact
                                                 else Nil)
                                          in if overlapErr \<noteq> Nil
                                             then (halt (Wrap overlapErr
                                               ''resulted compacted block %s overlaps with something''),
                                                   [])
                                             else uploadBlock env cg bdir compID))))))"

fun finalizeBlocks ::
  "Env \<Rightarrow> Group \<Rightarrow> string \<Rightarrow> Meta list \<Rightarrow> ulid list \<Rightarrow> error \<times> event list" where
  "finalizeBlocks env cg dir toCompact [] = (Nil, [])"
| "finalizeBlocks env cg dir toCompact (compID # compIDs) =
     (case finalizeBlock env cg dir toCompact compID of
        (err, evs) \<Rightarrow>
          if err \<noteq> Nil then (err, evs)
          else prepend evs (finalizeBlocks env cg dir toCompact compIDs))"

text \<open>The last loop: delete and mark every planned block.\<close>

fun markCompacted :: "Env \<Rightarrow> Group \<Rightarrow> string \<Rightarrow> Meta list \<Rightarrow> error \<times> event list" where
  "markCompacted env cg dir [] = (Nil, [])"
| "markCompacted env cg dir (meta # toCompact) =
     (case deleteBlock env cg (ULID (BlockMeta meta))
             (Join dir (ULID_String env (ULID (BlockMeta meta)))) of
        (err, evs) \<Rightarrow>
          if err \<noteq> Nil
          then (retry (Wrap err ''mark old block for deletion from bucket''), evs)
          else prepend (evs @ [Inc ''groupGarbageCollectedBlocks''])
                 (markCompacted env cg dir toCompact))"

text \<open>
  The steps of \<^verbatim>\<open>compact\<close> after the downloads: merge, then either delete the
  empty inputs or finalize, upload and mark.
\<close>

definition mergeBlocks ::
  "Env \<Rightarrow> Group \<Rightarrow> string \<Rightarrow> bool \<Rightarrow> Meta list \<Rightarrow> (bool \<times> ulid list \<times> error) \<times> event list"
where
  "mergeBlocks env cg dir overlappingBlocks toCompact =
     (let toCompactDirs =
            map (\<lambda>m. Join dir (ULID_String env (ULID (BlockMeta m)))) toCompact;
          e = GetBlockPopulator env cg
      in if e \<noteq> Nil
         then ((False, [], halt (Wrap e ''compact blocks %v'')), [BlockPopulator e])
         else
           (case comp_CompactWithBlockPopulator env dir toCompactDirs of
              (compIDs, err) \<Rightarrow>
                (let evs = [BlockPopulator Nil,
                            CompactWithBlockPopulator dir toCompactDirs compIDs err]
                 in if err \<noteq> Nil
                    then ((False, [], halt (Wrap err ''compact blocks %v'')), evs)
                    else if length compIDs = 0
                    then ((True, [], Nil), evs @ deleteEmptyBlocks env cg dir toCompact)
                    else
                      (let evs' = evs @ [Inc ''compactions'']
                                  @ (if overlappingBlocks then [Inc ''verticalCompactions'']
                                     else [])
                       in case finalizeBlocks env cg dir toCompact compIDs of
                            (ferr, fevs) \<Rightarrow>
                              if ferr \<noteq> Nil then ((False, [], ferr), evs' @ fevs)
                              else
                                (case markCompacted env cg dir toCompact of
                                   (merr, mevs) \<Rightarrow>
                                     if merr \<noteq> Nil
                                     then ((False, [], merr), evs' @ fevs @ mevs)
                                     else ((True, compIDs, Nil), evs' @ fevs @ mevs))))))"

text \<open>
  \<^verbatim>\<open>compact\<close>: the result \<^verbatim>\<open>(shouldRerun, compIDs, err)\<close>, a nil slice being the empty
  list, and the calls made.
\<close>

definition compact ::
  "Env \<Rightarrow> Group \<Rightarrow> string \<Rightarrow> (bool \<times> ulid list \<times> error) \<times> event list" where
  "compact env cg dir =
     (let overlapErr = areBlocksOverlapping cg None []
      in if overlapErr \<noteq> Nil \<and> \<not> enableVerticalCompaction cg
         then ((False, [], halt (Wrap overlapErr ''pre compaction overlap check'')), [])
         else
           (let overlappingBlocks = (overlapErr \<noteq> Nil)
            in case planner_Plan env (metasByMinTime cg) (extensions cg) of
                 (toCompact, e) \<Rightarrow>
                   (let planned = [Plan (metasByMinTime cg) toCompact e]
                    in if e \<noteq> Nil
                       then ((False, [], Wrap e ''plan compaction''), planned)
                       else if length toCompact = 0
                       then ((False, [], Nil), planned)
                       else
                         (let cbErr = PreCompactionCallback env cg toCompact;
                              called = planned @ [PreCompaction toCompact cbErr]
                          in if cbErr \<noteq> Nil
                             then ((False, [],
                                    Wrap cbErr
                                      ''failed to run pre compaction callback for plan: %s''),
                                   called)
                             else
                               (case downloadBlocks env cg dir toCompact of
                                  (derr, devs) \<Rightarrow>
                                    if derr \<noteq> Nil
                                    then ((False, [], derr), called @ devs)
                                    else
                                      (case mergeBlocks env cg dir overlappingBlocks
                                              toCompact of
                                         (res, mevs) \<Rightarrow> (res, called @ devs @ mevs)))))))"

text \<open>
  \<^verbatim>\<open>Compact\<close>: create the work directory of the group, run \<^verbatim>\<open>compact\<close> in it, and
  remove the directory again when there is no error (a failure to remove it is
  logged).
\<close>

definition Compact ::
  "Env \<Rightarrow> Group \<Rightarrow> string \<Rightarrow> (bool \<times> ulid list \<times> error) \<times> event list" where
  "Compact env cg dir =
     (let subDir = Join dir (Key cg)
      in case os_MkdirAll env subDir of
           Some msg \<Rightarrow>
             ((False, [], Wrap (ErrorString msg) ''create compaction group dir''),
              [Inc ''compactionRunsStarted'', MkdirAll subDir (Some msg)])
         | None \<Rightarrow>
             (case compact env cg subDir of
                ((shouldRerun, compIDs, err), evs) \<Rightarrow>
                  if err \<noteq> Nil
                  then ((False, [], err),
                        [Inc ''compactionRunsStarted'', MkdirAll subDir None] @ evs
                        @ [Inc ''compactionFailures''])
                  else ((shouldRerun, compIDs, Nil),
                        [Inc ''compactionRunsStarted'', MkdirAll subDir None] @ evs
                        @ [Inc ''compactionRunsCompleted'',
                           RemoveAll subDir (os_RemoveAll env subDir)])))"

text \<open>Which calls are downloads, uploads and deletion marks.\<close>

fun isDownload :: "event \<Rightarrow> bool" where
  "isDownload (Download b bdir r) = True"
| "isDownload ev = False"

fun isUpload :: "event \<Rightarrow> bool" where
  "isUpload (Upload bdir r) = True"
| "isUpload ev = False"

fun isMarkForDeletion :: "event \<Rightarrow> bool" where
  "isMarkForDeletion (MarkForDeletion b reason r) = True"
| "isMarkForDeletion ev = False"

fun isPlan :: "event \<Rightarrow> bool" where
  "isPlan (Plan ms toCompact e) = True"
| "isPlan ev = False"

fun isCompactorCall :: "event \<Rightarrow> bool" where
  "isCompactorCall (CompactWithBlockPopulator dest dirs compIDs e) = True"
| "isCompactorCall ev = False"

text \<open>
  Whether \<^verbatim>\<open>deleteBlock\<close> writes the marker of a block: the local copy is removed,
  the checker agrees, and the write succeeds.
\<close>

definition marksBlock :: "Env \<Rightarrow> Group \<Rightarrow> string \<Rightarrow> Meta \<Rightarrow> bool" where
  "marksBlock env cg dir meta =
     (os_RemoveAll env (Join dir (ULID_String env (ULID (BlockMeta meta)))) = None \<and>
      checker_CanDelete env cg (ULID (BlockMeta meta)) \<and>
      block_MarkForDeletion env (ULID (BlockMeta meta)) ''source of compacted block'' = None)"

section \<open>Compaction progress\<close>

text \<open>
  Modelled from the spec: \<^verbatim>\<open>tsdb.CompactBlockMetas\<close> (Prometheus library) and
  \<^verbatim>\<open>ulid.MustNew\<close> are not among the sources. The specification has the progress
  calculator "synthesize a combined meta (with current time as a nominal ID)",
  whose time range is \<open>[min(inputMinTimes), max(inputMaxTimes))\<close>, whose source set
  is the union of the inputs' source sets and whose compaction level is above the
  inputs'. The plan is not empty where the code calls it, so the first block is an
  argument of its own. The identifier carries the clock's seconds in its 48-bit
  time field and no entropy (a clock reading fits the field).
\<close>

definition CompactBlockMetas :: "ulid \<Rightarrow> BlockMeta \<Rightarrow> BlockMeta list \<Rightarrow> BlockMeta" where
  "CompactBlockMetas uid b bs =
     \<lparr> ULID = uid,
       MinTime = fold (\<lambda>x mint. if MinTime x < mint then MinTime x else mint) bs (MinTime b),
       MaxTime = fold (\<lambda>x maxt. if MaxTime x > maxt then MaxTime x else maxt) bs (MaxTime b),
       NumSamples = 0,
       Level = fold (\<lambda>x l. if Level x > l then Level x else l) (b # bs) 0 + 1,
       Sources = sort_Slice (\<lambda>x y. x < y) (remdups (concat (map Sources (b # bs)))) \<rparr>"

definition MustNew :: "nat \<Rightarrow> ulid" where
  "MustNew ms = push_bit 80 (word_of_nat ms)"

text \<open>
  The groups are passed by pointer. \<open>store\<close> maps an address to the group it
  holds; the calculator receives a list of addresses. Its own state is the two
  counter maps and the number of clock readings taken so far.
\<close>

record Progress =
  store :: "nat \<Rightarrow> Group"
  groupCompactions :: "(string \<times> nat) list"
  groupBlocks :: "(string \<times> nat) list"
  ticks :: nat

text \<open>
  The body of the inner loop for the group at address \<open>a\<close>: the error, whether the
  group is appended to \<^verbatim>\<open>tmpGroups\<close>, and the state it leaves. \<open>plan\<close> is the
  planner, \<open>clock n\<close> the seconds \<^verbatim>\<open>time.Now().Unix()\<close> returns at its \<open>n\<close>-th call.
\<close>

definition progressGroup ::
  "(Meta list \<Rightarrow> string option \<Rightarrow> Meta list \<times> error) \<Rightarrow> (nat \<Rightarrow> nat) \<Rightarrow> nat \<Rightarrow> Progress
     \<Rightarrow> error \<times> bool \<times> Progress" where
  "progressGroup plan clock a st =
     (let g = store st a
      in if length (IDs g) = 1 then (Nil, False, st)
         else
           (case plan (metasByMinTime g) (extensions g) of
              (planned, err) \<Rightarrow>
                if err \<noteq> Nil then (Wrap err ''could not plan'', False, st)
                else
                  (case planned of
                     [] \<Rightarrow> (Nil, False, st)
                   | p # ps \<Rightarrow>
                       (let toRemove = set (map (\<lambda>p. ULID (BlockMeta p)) (p # ps));
                            g' = deleteFromGroup g toRemove;
                            st' = st \<lparr> store := (store st)(a := g'),
                                       groupCompactions := bump (key g) 1 (groupCompactions st),
                                       groupBlocks :=
                                         bump (key g) (length (p # ps)) (groupBlocks st) \<rparr>
                        in if length (metasByMinTime g') = 0 then (Nil, False, st')
                           else
                             (let newMeta =
                                    CompactBlockMetas (MustNew (clock (ticks st)))
                                      (BlockMeta p) (map BlockMeta ps);
                                  appended =
                                    AppendMeta g'
                                      \<lparr> BlockMeta = newMeta,
                                        Thanos = \<lparr> Labels = Labels_Map (labels g'),
                                                   Resolution = resolution g',
                                                   Source = [],
                                                   SegmentFiles = [],
                                                   Extensions = None,
                                                   IndexStats_ChunkMaxSize = 0,
                                                   IndexStats_SeriesMaxSize = 0 \<rparr> \<rparr>;
                                  st'' = st' \<lparr> store := (store st')(a := snd appended),
                                              ticks := Suc (ticks st) \<rparr>
                              in if fst appended \<noteq> Nil
                                 then (Wrap (fst appended) ''append meta'', False, st'')
                                 else (Nil, True, st''))))))"

text \<open>The inner loop over \<^verbatim>\<open>groups\<close>, building \<^verbatim>\<open>tmpGroups\<close>.\<close>

fun progressPass ::
  "(Meta list \<Rightarrow> string option \<Rightarrow> Meta list \<times> error) \<Rightarrow> (nat \<Rightarrow> nat) \<Rightarrow> nat list \<Rightarrow> nat list
     \<Rightarrow> Progress \<Rightarrow> error \<times> nat list \<times> Progress" where
  "progressPass plan clock [] tmpGroups st = (Nil, tmpGroups, st)"
| "progressPass plan clock (a # groups) tmpGroups st =
     (case progressGroup plan clock a st of
        (err, keep, st') \<Rightarrow>
          if err \<noteq> Nil then (err, tmpGroups, st')
          else progressPass plan clock groups
                 (if keep then tmpGroups @ [a] else tmpGroups) st')"

text \<open>
  The outer loop \<^verbatim>\<open>for len(groups) > 0\<close>. Nothing bounds its number of rounds
  (a planner may go on planning); \<open>fuel\<close> is the number of rounds allowed, and
  \<open>None\<close> says that they did not suffice.
\<close>

fun progressLoop ::
  "nat \<Rightarrow> (Meta list \<Rightarrow> string option \<Rightarrow> Meta list \<times> error) \<Rightarrow> (nat \<Rightarrow> nat) \<Rightarrow> nat list
     \<Rightarrow> Progress \<Rightarrow> (error \<times> Progress) option" where
  "progressLoop fuel plan clock [] st = Some (Nil, st)"
| "progressLoop 0 plan clock (a # groups) st = None"
| "progressLoop (Suc fuel) plan clock (a # groups) st =
     (case progressPass plan clock (a # groups) [] st of
        (err, tmpGroups, st') \<Rightarrow>
          if err \<noteq> Nil then Some (err, st')
          else progressLoop fuel plan clock tmpGroups st')"

text \<open>
  \<^verbatim>\<open>CompactionProgressCalculator.ProgressCalculate\<close>: the error, the groups as the
  call leaves them, and the values of the two gauges when they are set.
\<close>

definition CompactionProgressCalculate ::
  "nat \<Rightarrow> (Meta list \<Rightarrow> string option \<Rightarrow> Meta list \<times> error) \<Rightarrow> (nat \<Rightarrow> nat) \<Rightarrow> nat list
     \<Rightarrow> (nat \<Rightarrow> Group) \<Rightarrow> (error \<times> (nat \<Rightarrow> Group) \<times> (nat \<times> nat) option) option" where
  "CompactionProgressCalculate fuel plan clock groups heap =
     (case progressLoop fuel plan clock groups
             \<lparr> store = heap, groupCompactions = [], groupBlocks = [], ticks = 0 \<rparr> of
        None \<Rightarrow> None
      | Some (err, st) \<Rightarrow>
          if err \<noteq> Nil then Some (err, store st, None)
          else Some (Nil, store st,
                     Some (sum_list (map snd (groupCompactions st)),
                           sum_list (map (\<lambda>(k, iters).
                                       case map_of (groupBlocks st) k of
                                         None \<Rightarrow> 0 | Some n \<Rightarrow> n)
                                     (groupCompactions st)))))"

text \<open>
  A group the calculator passes over when it visits it: it has exactly one block
  identifier, or the planner returns an empty plan for it.
\<close>

definition passedOver ::
  "(Meta list \<Rightarrow> string option \<Rightarrow> Meta list \<times> error) \<Rightarrow> Group \<Rightarrow> bool" where
  "passedOver plan g \<longleftrightarrow>
     length (IDs g) = 1 \<or> fst (plan (metasByMinTime g) (extensions g)) = []"

section \<open>Example values\<close>

text \<open>Blocks and collaborators used to run the definitions on concrete inputs.\<close>

definition exampleThanos :: Thanos where
  "exampleThanos =
     \<lparr> Labels = fmempty, Resolution = 0, Source = [], SegmentFiles = [],
       Extensions = None, IndexStats_ChunkMaxSize = 0, IndexStats_SeriesMaxSize = 0 \<rparr>"

definition exampleBlock :: "ulid \<Rightarrow> int \<Rightarrow> int \<Rightarrow> nat \<Rightarrow> Meta" where
  "exampleBlock i mint maxt n =
     \<lparr> BlockMeta = \<lparr> ULID = i, MinTime = mint, MaxTime = maxt, NumSamples = n,
                     Level = 1, Sources = [i] \<rparr>,
       Thanos = exampleThanos \<rparr>"

definition gcSyncer :: Syncer where
  "gcSyncer =
     \<lparr> blocks = [1 \<mapsto> exampleBlock 1 0 10 5, 2 \<mapsto> exampleBlock 2 0 10 5,
                 3 \<mapsto> exampleBlock 3 10 20 5, 4 \<mapsto> exampleBlock 4 0 20 10],
       partial = Map.empty,
       DeletionMarkBlocks = [2 \<mapsto> ''marked''],
       DuplicateIDs = [1, 2, 3] \<rparr>"

definition gcEnv :: "ulid option \<Rightarrow> GCEnv" where
  "gcEnv failing =
     \<lparr> ctx_Err = (\<lambda>i. None),
       bkt_MarkForDeletion =
         (\<lambda>b reason. if Some b = failing then Some ''bucket unavailable'' else None) \<rparr>"

definition exampleGroup :: "bool \<Rightarrow> Meta list \<Rightarrow> Group" where
  "exampleGroup vertical ms =
     \<lparr> key = ''0@'', labels = [], resolution = 0, metasByMinTime = ms,
       acceptMalformedIndex = False, enableVerticalCompaction = vertical,
       blockFilesConcurrency = 1, compactBlocksFetchConcurrency = 1,
       extensions = None \<rparr>"

definition exampleGrouper :: DefaultGrouper where
  "exampleGrouper =
     \<lparr> g_acceptMalformedIndex = False, g_enableVerticalCompaction = False,
       g_blockFilesConcurrency = 1, g_compactBlocksFetchConcurrency = 1 \<rparr>"

text \<open>A group key that renders the resolution and the labels.\<close>

definition exampleGroupKey :: "Thanos \<Rightarrow> string" where
  "exampleGroupKey t =
     (if Resolution t = 0 then ''0'' else ''1'') @ ''@''
     @ concat (map (\<lambda>(n, v). n @ ''='' @ v @ '','') (FromMap (Labels t)))"

definition healthyStats :: HealthStats where
  "healthyStats =
     \<lparr> CriticalErr = None, OutOfOrderChunksErr = None, Issue347OutsideChunksErr = None,
       OutOfOrderLabelsErr = None, AnyErr = None, ChunkMaxSize = 0, SeriesMaxSize = 0 \<rparr>"

text \<open>
  Collaborators that never fail: the planner is \<open>plan\<close>, the low-level compactor
  returns \<open>compIDs\<close>, the deletable checker answers \<open>canDelete\<close>.
\<close>

definition exampleEnv :: "(Meta list \<Rightarrow> Meta list) \<Rightarrow> ulid list \<Rightarrow> bool \<Rightarrow> Env" where
  "exampleEnv plan compIDs canDelete =
     \<lparr> os_MkdirAll = (\<lambda>path. None),
       os_RemoveAll = (\<lambda>path. None),
       os_Remove = (\<lambda>path. None),
       planner_Plan = (\<lambda>ms ext. (plan ms, Nil)),
       PreCompactionCallback = DefaultPreCompactionCallback,
       PostCompactionCallback = DefaultPostCompactionCallback,
       GetBlockPopulator = (\<lambda>cg. Nil),
       block_Download = (\<lambda>b bdir. None),
       block_GatherIndexHealthStats = (\<lambda>path mint maxt. (healthyStats, None)),
       comp_CompactWithBlockPopulator = (\<lambda>dest dirs. (compIDs, Nil)),
       metadata_ReadFromDir = (\<lambda>bdir. (exampleBlock 9 0 20 10, None)),
       block_GetSegmentFiles = (\<lambda>bdir. []),
       metadata_InjectThanos = (\<lambda>bdir t. (exampleBlock 9 0 20 10, None)),
       block_Upload = (\<lambda>bdir. None),
       checker_CanDelete = (\<lambda>cg b. canDelete),
       block_MarkForDeletion = (\<lambda>b reason. None),
       ULID_String = (\<lambda>b. if b = 1 then ''01'' else if b = 2 then ''02'' else ''09'') \<rparr>"

text \<open>
  A planner that plans every block it is given, a clock that stands still, and a
  store in which every address holds the same example group.
\<close>

definition planAll :: "Meta list \<Rightarrow> string option \<Rightarrow> Meta list \<times> error" where
  "planAll ms ext = (ms, Nil)"

definition exampleClock :: "nat \<Rightarrow> nat" where
  "exampleClock n = 1700000000"

definition exampleHeap :: "Meta list \<Rightarrow> nat \<Rightarrow> Group" where
  "exampleHeap ms a = exampleGroup False ms"

section \<open>Error classes\<close>

lemma Cause_idem: "Cause (Cause e) = Cause e"
  by (induction e rule: Cause.induct) simp_all

lemma anyHalt_iff: "anyHalt es \<longleftrightarrow> (\<exists>e\<in>set es. asHaltError (Cause e))"
  by (induction es) auto

lemma allRetry_iff: "allRetry es \<longleftrightarrow> (\<forall>e\<in>set es. asRetryError (Cause e))"
  by (induction es) auto

lemma asHalt_not_asRetry: "asHaltError c \<Longrightarrow> \<not> asRetryError c"
  by (cases c) simp_all

lemma anyHalt_not_allRetry: "anyHalt es \<Longrightarrow> \<not> allRetry es"
  by (auto simp: anyHalt_iff allRetry_iff dest: asHalt_not_asRetry)

lemma halt_excludes_retry: "IsHaltError e \<Longrightarrow> \<not> IsRetryError e"
  unfolding IsHaltError_def IsRetryError_def
  by (cases "Cause e") (auto dest: anyHalt_not_allRetry)





text \<open>
  The loops of \<^verbatim>\<open>IsHaltError\<close> and \<^verbatim>\<open>IsRetryError\<close> test the type of the cause of
  each member and do not descend into a member that is itself a list of root
  causes.
\<close>

lemma nested_root_list_not_inspected:
  "\<not> IsHaltError (NonNilMultiRootError [NonNilMultiRootError [HaltError (ErrorString ''overlap'')]]) \<and>
   IsHaltError (NonNilMultiRootError [HaltError (ErrorString ''overlap'')])"
  by (simp add: IsHaltError_def)



text \<open>
  C10. \<open>retry\<close> returns a halt error as it is: the result is still a halt error and
  is not a retry error. No error is both a halt error and a retry error.
\<close>

theorem retry_keeps_halt_error:
  "(IsHaltError e \<longrightarrow> retry e = e \<and> IsHaltError (retry e) \<and> \<not> IsRetryError (retry e)) \<and>
   \<not> (IsHaltError e \<and> IsRetryError e)"
  using halt_excludes_retry[of e] by (auto simp: retry_def)

theorem retry_keeps_halt_error_witness:
  "IsHaltError (WithMessage ''group a'' (HaltError (ErrorString ''overlap''))) \<and>
   retry (WithMessage ''group a'' (HaltError (ErrorString ''overlap'')))
     = WithMessage ''group a'' (HaltError (ErrorString ''overlap'')) \<and>
   \<not> IsRetryError (retry (WithMessage ''group a'' (HaltError (ErrorString ''overlap''))))"
proof -
  have h: "IsHaltError (WithMessage ''group a'' (HaltError (ErrorString ''overlap'')))"
    by (simp add: IsHaltError_def)
  show ?thesis
    using h retry_keeps_halt_error
            [of "WithMessage ''group a'' (HaltError (ErrorString ''overlap''))"]
    by blast
qed

section \<open>Retention progress\<close>

lemma Seconds_is_zero_iff: "Seconds_is_zero d \<longleftrightarrow> d = 0"
proof
  assume "Seconds_is_zero d"
  then show "d = 0"
    using sdiv_mult_smod_eq[of d 1000000000] by (simp add: Seconds_is_zero_def)
next
  assume "d = 0"
  then show "Seconds_is_zero d" by (simp add: Seconds_is_zero_def)
qed

lemma smod_second_bounds:
  "- 1000000000 < (d::int) smod 1000000000 \<and> d smod 1000000000 < 1000000000"
  using smod_int_range[of 1000000000 d] by simp

text \<open>Adding a duration to a whole second is exact and leaves a normalised time.\<close>

lemma nanoseconds_Add_Unix:
  "nanoseconds (Add (Unix s) d) = s * 1000000000 + d \<and>
   0 \<le> nsec (Add (Unix s) d) \<and> nsec (Add (Unix s) d) < 1000000000"
  using smod_second_bounds[of d] sdiv_mult_smod_eq[of d 1000000000]
  by (auto simp: Add_def Unix_def nanoseconds_def Let_def algebra_simps)

lemma After_iff:
  assumes "0 \<le> nsec t" "nsec t < 1000000000" "0 \<le> nsec u" "nsec u < 1000000000"
  shows "After t u \<longleftrightarrow> nanoseconds t > nanoseconds u"
  using assms unfolding After_def nanoseconds_def by auto

text \<open>
  C9, as the specification states it, fails on the code in three ways: at
  \<open>now - maxTime = retention\<close> the block is not counted (\<^verbatim>\<open>After\<close> is strict); the
  block's \<open>maxTime\<close> is cut to whole seconds first, so a block \<open>501 ms\<close> past its
  end with a retention of one second is counted; and a negative retention is not
  "never".
\<close>

theorem retention_spec_counterexample:
  "\<not> retentionCounts [0 \<mapsto> 1000000000] \<lparr> sec = 1, nsec = 0 \<rparr> (exampleBlock 1 (- 1000) 0 10) \<and>
   spec_retention_counts [0 \<mapsto> 1000000000] (nanoseconds \<lparr> sec = 1, nsec = 0 \<rparr>)
     (exampleBlock 1 (- 1000) 0 10) \<and>
   retentionCounts [0 \<mapsto> 1000000000] \<lparr> sec = 2, nsec = 500000000 \<rparr>
     (exampleBlock 1 0 1999 10) \<and>
   \<not> spec_retention_counts [0 \<mapsto> 1000000000] (nanoseconds \<lparr> sec = 2, nsec = 500000000 \<rparr>)
     (exampleBlock 1 0 1999 10) \<and>
   retentionCounts [0 \<mapsto> - 1000000000] \<lparr> sec = 1, nsec = 0 \<rparr> (exampleBlock 1 (- 1000) 0 10) \<and>
   \<not> spec_retention_counts [0 \<mapsto> - 1000000000] (nanoseconds \<lparr> sec = 1, nsec = 0 \<rparr>)
     (exampleBlock 1 (- 1000) 0 10)"
  by (simp add: retentionCounts_def spec_retention_counts_def exampleBlock_def
      exampleThanos_def nanoseconds_def Seconds_is_zero_def Unix_def Add_def After_def Let_def)

text \<open>
  C9, amended. The retention calculator counts a block if and only if the retention
  of its resolution is not zero and \<open>now\<close> lies strictly more than that retention
  after the block's \<open>maxTime\<close> cut to whole seconds; a retention of zero (or a
  resolution without an entry) means the block is never counted.
\<close>

theorem retention_counts_iff:
  assumes "0 \<le> nsec now" "nsec now < 1000000000"
  shows "retentionCounts rbr now m \<longleftrightarrow>
     (let retention = (case rbr (Resolution (Thanos m)) of None \<Rightarrow> 0 | Some d \<Rightarrow> d)
      in retention \<noteq> 0 \<and>
         nanoseconds now - (MaxTime (BlockMeta m) sdiv 1000) * 1000000000 > retention)"
  using assms nanoseconds_Add_Unix
  by (auto simp: retentionCounts_def Let_def Seconds_is_zero_iff After_iff)

theorem retention_counts_iff_witness:
  "retentionCounts [0 \<mapsto> 1000000000] \<lparr> sec = 3, nsec = 500000000 \<rparr>
     (exampleBlock 1 0 1999 10) \<and>
   \<not> retentionCounts [0 \<mapsto> 0] \<lparr> sec = 3, nsec = 500000000 \<rparr> (exampleBlock 1 0 1999 10)"
proof -
  have a: "(0::int) \<le> nsec \<lparr> sec = 3, nsec = 500000000 \<rparr>" by simp
  have b: "nsec \<lparr> sec = 3, nsec = 500000000 \<rparr> < (1000000000::int)" by simp
  show ?thesis
    using retention_counts_iff[OF a b, of "[0 \<mapsto> 1000000000]" "exampleBlock 1 0 1999 10"]
          retention_counts_iff[OF a b, of "[0 \<mapsto> 0]" "exampleBlock 1 0 1999 10"]
    by (simp add: exampleBlock_def exampleThanos_def nanoseconds_def)
qed

section \<open>Garbage collection\<close>

lemma set_garbageIDs: "set (garbageIDs dm ds) = set ds - dom dm"
  by (induction ds) auto

lemma retry_write_failure:
  "retry (Wrap (ErrorString msg) m) = RetryError (WithMessage m (ErrorString msg)) \<and>
   IsRetryError (retry (Wrap (ErrorString msg) m))"
  by (simp add: retry_def Wrap_def IsHaltError_def IsRetryError_def)

lemma set_markersWritten:
  "set (markersWritten evs) = {(b, r). MarkForDeletion b r None \<in> set evs}"
  by (induction evs rule: markersWritten.induct) auto

lemma markGarbage_written_prefix:
  "markGarbage env i ids s = (err, s', evs) \<Longrightarrow>
   \<exists>rest. ids = map fst (markersWritten evs) @ rest \<and> (err = Nil \<longrightarrow> rest = [])"
proof (induction ids arbitrary: i s err s' evs)
  case Nil
  then show ?case by auto
next
  case (Cons b ids)
  then show ?case
    by (auto simp: retry_write_failure split: option.splits prod.splits)
qed

lemma markGarbage_reason:
  "markGarbage env i ids s = (err, s', evs) \<Longrightarrow> ev \<in> set evs \<Longrightarrow> isMarkForDeletion ev \<Longrightarrow>
   \<exists>b r. ev = MarkForDeletion b ''outdated block'' r \<and> b \<in> set ids"
proof (induction ids arbitrary: i s err s' evs)
  case Nil
  then show ?case by auto
next
  case (Cons b ids)
  then show ?case
    by (fastforce split: option.splits prod.splits)
qed

lemma markGarbage_blocks:
  "markGarbage env i ids s = (err, s', evs) \<Longrightarrow>
   blocks s' = (\<lambda>b. if b \<in> fst ` set (markersWritten evs) then None else blocks s b)"
proof (induction ids arbitrary: i s err s' evs)
  case Nil
  then show ?case by auto
next
  case (Cons b ids)
  then show ?case
    by (fastforce split: option.splits prod.splits)
qed

lemma markGarbage_failure:
  "markGarbage env i ids s = (err, s', evs) \<Longrightarrow>
   MarkForDeletion b reason (Some msg) \<in> set evs \<Longrightarrow>
   err = RetryError (WithMessage ''mark block %s for deletion'' (ErrorString msg)) \<and>
   (\<exists>before. evs = before @ [MarkForDeletion b reason (Some msg), Inc ''GarbageCollectionFailures''])"
proof (induction ids arbitrary: i s err s' evs)
  case Nil
  then show ?case by auto
next
  case (Cons c ids)
  show ?case
  proof (cases "ctx_Err env i")
    case (Some m)
    with Cons.prems show ?thesis by auto
  next
    case None
    show ?thesis
    proof (cases "bkt_MarkForDeletion env c ''outdated block''")
      case (Some m)
      with None Cons.prems show ?thesis
        by (auto simp: retry_write_failure)
    next
      case N2: None
      obtain e2 s2 ev2 where r: "markGarbage env (Suc i) ids (s \<lparr> blocks := (blocks s)(c := None) \<rparr>) = (e2, s2, ev2)"
        by (cases "markGarbage env (Suc i) ids (s \<lparr> blocks := (blocks s)(c := None) \<rparr>)") auto
      with None N2 Cons.prems have evs: "evs = [MarkForDeletion c ''outdated block'' None, Inc ''GarbageCollectedBlocks''] @ ev2" and e: "err = e2"
        by auto
      with Cons.prems(2) have "MarkForDeletion b reason (Some msg) \<in> set ev2" by auto
      from Cons.IH[OF r this] obtain before where
        "e2 = RetryError (WithMessage ''mark block %s for deletion'' (ErrorString msg))"
        "ev2 = before @ [MarkForDeletion b reason (Some msg), Inc ''GarbageCollectionFailures'']"
        by auto
      with evs e show ?thesis by auto
    qed
  qed
qed

text \<open>
  C5. Every call of \<^verbatim>\<open>GarbageCollect\<close> that marks a block marks, with the reason
  "outdated block", a block that the duplicate filter reports and that carries no
  deletion mark yet; the blocks marked are an initial part of these garbage blocks,
  and all of them when the call returns without error. The block map the call leaves
  is the old one without the blocks whose marker was written. A marker write that
  fails is the last call made, and the error returned wraps its cause as a retry
  error.
\<close>

theorem GarbageCollect_marks_duplicates:
  assumes gc: "GarbageCollect env s = (err, s', evs)"
  shows "(\<forall>ev\<in>set evs. isMarkForDeletion ev \<longrightarrow>
            (\<exists>b r. ev = MarkForDeletion b ''outdated block'' r \<and>
                    b \<in> set (DuplicateIDs s) \<and> DeletionMarkBlocks s b = None)) \<and>
         (\<exists>rest. garbageIDs (DeletionMarkBlocks s) (DuplicateIDs s)
                    = map fst (markersWritten evs) @ rest) \<and>
         (err = Nil \<longrightarrow>
            set (markersWritten evs) =
              (\<lambda>b. (b, ''outdated block'')) ` (set (DuplicateIDs s) - dom (DeletionMarkBlocks s))) \<and>
         blocks s' = (\<lambda>b. if b \<in> fst ` set (markersWritten evs) then None else blocks s b) \<and>
         (\<forall>b reason msg. MarkForDeletion b reason (Some msg) \<in> set evs \<longrightarrow>
            IsRetryError err \<and>
            err = retry (Wrap (ErrorString msg) ''mark block %s for deletion'') \<and>
            (\<exists>before. evs = before @ [MarkForDeletion b reason (Some msg),
                                       Inc ''GarbageCollectionFailures'']))"
proof (intro conjI)
  let ?g = "garbageIDs (DeletionMarkBlocks s) (DuplicateIDs s)"
  from gc have mg: "markGarbage env 0 ?g s = (err, s', evs)"
    by (simp add: GarbageCollect_def)
  show calls: "\<forall>ev\<in>set evs. isMarkForDeletion ev \<longrightarrow>
            (\<exists>b r. ev = MarkForDeletion b ''outdated block'' r \<and>
                    b \<in> set (DuplicateIDs s) \<and> DeletionMarkBlocks s b = None)"
  proof (intro ballI impI)
    fix ev assume "ev \<in> set evs" "isMarkForDeletion ev"
    from markGarbage_reason[OF mg this] obtain b r where
      "ev = MarkForDeletion b ''outdated block'' r" "b \<in> set ?g" by auto
    then show "\<exists>b r. ev = MarkForDeletion b ''outdated block'' r \<and>
                    b \<in> set (DuplicateIDs s) \<and> DeletionMarkBlocks s b = None"
      by (auto simp: set_garbageIDs)
  qed
  from markGarbage_written_prefix[OF mg] obtain rest where
    rest: "?g = map fst (markersWritten evs) @ rest" "err = Nil \<longrightarrow> rest = []" by auto
  then show "\<exists>rest. ?g = map fst (markersWritten evs) @ rest" by auto
  show "err = Nil \<longrightarrow>
            set (markersWritten evs) =
              (\<lambda>b. (b, ''outdated block'')) ` (set (DuplicateIDs s) - dom (DeletionMarkBlocks s))"
  proof
    assume "err = Nil"
    with rest have g: "?g = map fst (markersWritten evs)" by simp
    have r: "\<And>b r. (b, r) \<in> set (markersWritten evs) \<Longrightarrow> r = ''outdated block''"
    proof -
      fix b r assume "(b, r) \<in> set (markersWritten evs)"
      then have "MarkForDeletion b r None \<in> set evs" by (simp add: set_markersWritten)
      with calls show "r = ''outdated block''" by fastforce
    qed
    have "set (markersWritten evs) = (\<lambda>b. (b, ''outdated block'')) ` set (map fst (markersWritten evs))"
      using r by force
    then show "set (markersWritten evs) =
              (\<lambda>b. (b, ''outdated block'')) ` (set (DuplicateIDs s) - dom (DeletionMarkBlocks s))"
      using g set_garbageIDs[of "DeletionMarkBlocks s" "DuplicateIDs s"] by simp
  qed
  show "blocks s' = (\<lambda>b. if b \<in> fst ` set (markersWritten evs) then None else blocks s b)"
    by (rule markGarbage_blocks[OF mg])
  show "\<forall>b reason msg. MarkForDeletion b reason (Some msg) \<in> set evs \<longrightarrow>
            IsRetryError err \<and>
            err = retry (Wrap (ErrorString msg) ''mark block %s for deletion'') \<and>
            (\<exists>before. evs = before @ [MarkForDeletion b reason (Some msg),
                                       Inc ''GarbageCollectionFailures''])"
    using markGarbage_failure[OF mg] retry_write_failure by metis
qed

lemma GarbageCollect_example_run: "GarbageCollect (gcEnv None) gcSyncer =
   (Nil, gcSyncer \<lparr> blocks := [2 \<mapsto> exampleBlock 2 0 10 5, 4 \<mapsto> exampleBlock 4 0 20 10] \<rparr>,
    [MarkForDeletion 1 ''outdated block'' None, Inc ''GarbageCollectedBlocks'',
     MarkForDeletion 3 ''outdated block'' None, Inc ''GarbageCollectedBlocks'',
     Inc ''GarbageCollections''])"
  by (auto simp add: GarbageCollect_def gcEnv_def gcSyncer_def)

lemma GarbageCollect_example_failure: "GarbageCollect (gcEnv (Some 3)) gcSyncer =
   (RetryError (WithMessage ''mark block %s for deletion'' (ErrorString ''bucket unavailable'')),
    gcSyncer \<lparr> blocks := (blocks gcSyncer)(1 := None) \<rparr>,
    [MarkForDeletion 1 ''outdated block'' None, Inc ''GarbageCollectedBlocks'',
     MarkForDeletion 3 ''outdated block'' (Some ''bucket unavailable''), Inc ''GarbageCollectionFailures''])"
  by (simp add: GarbageCollect_def gcEnv_def gcSyncer_def retry_write_failure)

theorem GarbageCollect_marks_duplicates_witness:
  "fst (GarbageCollect (gcEnv None) gcSyncer) = Nil \<and>
   set (markersWritten (snd (snd (GarbageCollect (gcEnv None) gcSyncer))))
     = {(1, ''outdated block''), (3, ''outdated block'')} \<and>
   blocks (fst (snd (GarbageCollect (gcEnv None) gcSyncer))) 1 = None \<and>
   IsRetryError (fst (GarbageCollect (gcEnv (Some 3)) gcSyncer))"
proof -
  have f: "MarkForDeletion 3 ''outdated block'' (Some ''bucket unavailable'')
             \<in> set [MarkForDeletion 1 ''outdated block'' None, Inc ''GarbageCollectedBlocks'',
                     MarkForDeletion 3 ''outdated block'' (Some ''bucket unavailable''),
                     Inc ''GarbageCollectionFailures'']"
    by simp
  have d: "set (DuplicateIDs gcSyncer) - dom (DeletionMarkBlocks gcSyncer) = {1, 3}"
    by (auto simp: gcSyncer_def)
  have r: "IsRetryError (fst (GarbageCollect (gcEnv (Some 3)) gcSyncer))"
    using GarbageCollect_marks_duplicates[OF GarbageCollect_example_failure] f
    unfolding GarbageCollect_example_failure fst_conv by blast
  have w: "set (markersWritten (snd (snd (GarbageCollect (gcEnv None) gcSyncer))))
             = {(1, ''outdated block''), (3, ''outdated block'')}"
    using GarbageCollect_marks_duplicates[OF GarbageCollect_example_run] d
    unfolding GarbageCollect_example_run snd_conv by auto
  have b: "blocks (fst (snd (GarbageCollect (gcEnv None) gcSyncer))) 1 = None"
    using GarbageCollect_marks_duplicates[OF GarbageCollect_example_run]
    unfolding GarbageCollect_example_run snd_conv fst_conv by simp
  show ?thesis
    using r w b by (simp add: GarbageCollect_example_run)
qed

section \<open>Sorting, grouping\<close>

lemma set_sink: "set (sink lt x p) = insert x (set p)"
  by (induction p) auto

lemma mset_sink: "mset (sink lt x p) = add_mset x (mset p)"
  by (induction p) auto

lemma sorted_sink:
  fixes f :: "'a \<Rightarrow> 'b::linorder"
  shows "sorted_wrt (\<lambda>a b. f b \<le> f a) p \<Longrightarrow>
         sorted_wrt (\<lambda>a b. f b \<le> f a) (sink (\<lambda>a b. f a < f b) x p)"
  by (induction p) (auto simp: set_sink)

lemma mset_sort_Slice: "mset (sort_Slice lt xs) = mset xs"
proof -
  have "mset (foldl (\<lambda>prefix x. sink lt x prefix) acc xs) = mset acc + mset xs" for acc
    by (induction xs arbitrary: acc) (auto simp: mset_sink)
  then show ?thesis by (simp add: sort_Slice_def)
qed

lemma set_sort_Slice: "set (sort_Slice lt xs) = set xs"
  using mset_sort_Slice[of lt xs] by (metis set_mset_mset)

lemma sorted_sort_Slice:
  fixes f :: "'a \<Rightarrow> 'b::linorder"
  shows "sorted_wrt (\<lambda>a b. f a \<le> f b) (sort_Slice (\<lambda>a b. f a < f b) xs)"
proof -
  have "sorted_wrt (\<lambda>a b. f b \<le> f a) (foldl (\<lambda>prefix x. sink (\<lambda>a b. f a < f b) x prefix) acc xs)"
    if "sorted_wrt (\<lambda>a b. f b \<le> f a) acc" for acc
    using that by (induction xs arbitrary: acc) (auto simp: sorted_sink)
  from this[of "[]"] show ?thesis
    by (simp add: sort_Slice_def sorted_wrt_rev)
qed

lemma FromMap_inj: "FromMap a = FromMap b \<Longrightarrow> a = b"
  by (metis FromMap_def fmap_ext map_of_sorted_list)

lemma FromMap_fmempty: "FromMap fmempty = []"
  by (simp add: FromMap_def sorted_list_of_fmap_def sorted_list_of_fset.rep_eq)

lemma AppendMeta_ok_iff:
  "fst (AppendMeta cg m) = Nil \<longleftrightarrow>
     labels cg = FromMap (Labels (Thanos m)) \<and> resolution cg = Resolution (Thanos m)"
  by (simp add: AppendMeta_def Equal_def)

lemma AppendMeta_result:
  "AppendMeta cg m = (err, cg') \<Longrightarrow>
     key cg' = key cg \<and> labels cg' = labels cg \<and> resolution cg' = resolution cg \<and>
     (if err = Nil
      then labels cg = FromMap (Labels (Thanos m)) \<and> resolution cg = Resolution (Thanos m) \<and>
           set (metasByMinTime cg') = insert m (set (metasByMinTime cg)) \<and>
           sorted_wrt (\<lambda>a b. MinTime (BlockMeta a) \<le> MinTime (BlockMeta b)) (metasByMinTime cg')
      else cg' = cg)"
  using sorted_sort_Slice[of "\<lambda>a. MinTime (BlockMeta a)" "metasByMinTime cg @ [m]"]
  by (auto simp: AppendMeta_def Equal_def set_sort_Slice split: if_splits)


lemma formed_membersAgree: "formed cg \<Longrightarrow> membersAgree cg"
proof (induction rule: formed.induct)
  case (formed_new k lset res acceptMalformed enableVertical filesConc fetchConc cg)
  then show ?case by (auto simp: NewGroup_def membersAgree_def split: if_splits)
next
  case (formed_append cg meta err cg')
  from AppendMeta_result[OF formed_append.hyps(2)] formed_append.IH
  show ?case by (auto simp: membersAgree_def split: if_splits)
next
  case (formed_delete cg target)
  then show ?case by (auto simp: membersAgree_def deleteFromGroup_def)
next
  case (formed_extensions cg ext)
  then show ?case by (auto simp: membersAgree_def SetExtensions_def)
qed

lemma Groups_loop_formed:
  "Groups_loop GK g bs res = Inr res' \<Longrightarrow> \<forall>gr\<in>set res. formed gr \<Longrightarrow> \<forall>gr\<in>set res'. formed gr"
proof (induction bs arbitrary: res)
  case Nil
  then show ?case by simp
next
  case (Cons m bs)
  show ?case
  proof (cases "find (\<lambda>gr. key gr = GK (Thanos m)) res")
    case None
    with Cons.prems(1) obtain grp grp' where
      n: "NewGroup (GK (Thanos m)) (FromMap (Labels (Thanos m))) (Resolution (Thanos m))
                  (g_acceptMalformedIndex g) (g_enableVerticalCompaction g)
                  (g_blockFilesConcurrency g) (g_compactBlocksFetchConcurrency g) = Inr grp"
      and a: "AppendMeta grp m = (Nil, grp')"
      and l: "Groups_loop GK g bs (res @ [grp']) = Inr res'"
      by (auto simp: Let_def split: sum.splits prod.splits if_splits)
    have "formed grp'" using formed_append[OF formed_new[OF n] a] .
    with Cons.prems(2) have "\<forall>gr\<in>set (res @ [grp']). formed gr" by auto
    from Cons.IH[OF l this] show ?thesis .
  next
    case (Some grp)
    with Cons.prems(1) obtain grp' where
      a: "AppendMeta grp m = (Nil, grp')"
      and l: "Groups_loop GK g bs (map (\<lambda>gr. if key gr = GK (Thanos m) then grp' else gr) res) = Inr res'"
      by (auto simp: Let_def split: sum.splits prod.splits if_splits)
    from Some have "grp \<in> set res" by (auto simp: find_Some_iff)
    with Cons.prems(2) have "formed grp" by auto
    then have "formed grp'" using a by (rule formed_append)
    with Cons.prems(2) have "\<forall>gr\<in>set (map (\<lambda>gr. if key gr = GK (Thanos m) then grp' else gr) res). formed gr" by auto
    from Cons.IH[OF l this] show ?thesis .
  qed
qed

lemma Groups_formed: "Groups GK g bs = Inr res \<Longrightarrow> gr \<in> set res \<Longrightarrow> formed gr"
  using Groups_loop_formed[of GK g bs "[]"]
  by (auto simp: Groups_def set_sort_Slice split: sum.splits)


text \<open>
  C4. \<^verbatim>\<open>AppendMeta\<close> returns no error exactly when the labels of the meta, listed by
  \<^verbatim>\<open>labels.FromMap\<close>, are the group's labels and its resolution is the group's.
  Hence any two members of a group the code can form have the same label map and
  the same resolution; the groups that \<^verbatim>\<open>Groups\<close> returns are such groups.
\<close>

theorem AppendMeta_guards_membership:
  "(fst (AppendMeta cg m) = Nil \<longleftrightarrow>
      labels cg = FromMap (Labels (Thanos m)) \<and> resolution cg = Resolution (Thanos m)) \<and>
   (formed g \<longrightarrow> b1 \<in> set (metasByMinTime g) \<longrightarrow> b2 \<in> set (metasByMinTime g) \<longrightarrow>
      Labels (Thanos b1) = Labels (Thanos b2) \<and>
      Resolution (Thanos b1) = Resolution (Thanos b2)) \<and>
   (Groups GroupKey grouper metas = Inr res \<longrightarrow> g' \<in> set res \<longrightarrow> formed g')"
proof (intro conjI impI)
  show "fst (AppendMeta cg m) = Nil \<longleftrightarrow>
      labels cg = FromMap (Labels (Thanos m)) \<and> resolution cg = Resolution (Thanos m)"
    by (rule AppendMeta_ok_iff)
next
  assume f: "formed g" and m: "b1 \<in> set (metasByMinTime g)" "b2 \<in> set (metasByMinTime g)"
  from formed_membersAgree[OF f] m
  have "FromMap (Labels (Thanos b1)) = FromMap (Labels (Thanos b2))"
    and r: "Resolution (Thanos b1) = Resolution (Thanos b2)"
    by (auto simp: membersAgree_def)
  then show "Labels (Thanos b1) = Labels (Thanos b2)" by (auto dest: FromMap_inj)
  show "Resolution (Thanos b1) = Resolution (Thanos b2)" by (rule r)
next
  assume "Groups GroupKey grouper metas = Inr res" "g' \<in> set res"
  then show "formed g'" by (rule Groups_formed)
qed

lemma example_NewGroup: "NewGroup ''0@'' [] 0 False False 1 1 = Inr (exampleGroup False [])"
  by (simp add: NewGroup_def exampleGroup_def)

lemma example_AppendMeta1:
  "AppendMeta (exampleGroup False []) (exampleBlock 1 0 10 5)
     = (Nil, exampleGroup False [exampleBlock 1 0 10 5])"
  by (simp add: AppendMeta_def exampleGroup_def exampleBlock_def exampleThanos_def Equal_def
      FromMap_fmempty sort_Slice_def)

lemma example_AppendMeta2:
  "AppendMeta (exampleGroup False [exampleBlock 1 0 10 5]) (exampleBlock 2 10 20 5)
     = (Nil, exampleGroup False [exampleBlock 1 0 10 5, exampleBlock 2 10 20 5])"
  by (simp add: AppendMeta_def exampleGroup_def exampleBlock_def exampleThanos_def Equal_def
      FromMap_fmempty sort_Slice_def)

theorem AppendMeta_guards_membership_witness:
  "fst (AppendMeta (exampleGroup False [exampleBlock 1 0 10 5]) (exampleBlock 2 10 20 5)) = Nil \<and>
   fst (AppendMeta (exampleGroup False [exampleBlock 1 0 10 5])
          ((exampleBlock 2 10 20 5) \<lparr> Thanos := exampleThanos \<lparr> Resolution := 300000 \<rparr> \<rparr>)) \<noteq> Nil \<and>
   formed (exampleGroup False [exampleBlock 1 0 10 5, exampleBlock 2 10 20 5]) \<and>
   Labels (Thanos (exampleBlock 1 0 10 5)) = Labels (Thanos (exampleBlock 2 10 20 5))"
proof -
  have f: "formed (exampleGroup False [exampleBlock 1 0 10 5, exampleBlock 2 10 20 5])"
    using formed_append[OF formed_append[OF formed_new[OF example_NewGroup]
            example_AppendMeta1] example_AppendMeta2] .
  have m1: "exampleBlock 1 0 10 5
              \<in> set (metasByMinTime (exampleGroup False [exampleBlock 1 0 10 5, exampleBlock 2 10 20 5]))"
    by (simp add: exampleGroup_def)
  have m2: "exampleBlock 2 10 20 5
              \<in> set (metasByMinTime (exampleGroup False [exampleBlock 1 0 10 5, exampleBlock 2 10 20 5]))"
    by (simp add: exampleGroup_def)
  have l1: "labels (exampleGroup False [exampleBlock 1 0 10 5])
              = FromMap (Labels (Thanos (exampleBlock 2 10 20 5)))"
    by (simp add: exampleGroup_def exampleBlock_def exampleThanos_def FromMap_fmempty)
  have r1: "resolution (exampleGroup False [exampleBlock 1 0 10 5])
              = Resolution (Thanos (exampleBlock 2 10 20 5))"
    by (simp add: exampleGroup_def exampleBlock_def exampleThanos_def)
  have r2: "resolution (exampleGroup False [exampleBlock 1 0 10 5])
              \<noteq> Resolution (Thanos ((exampleBlock 2 10 20 5) \<lparr> Thanos := exampleThanos \<lparr> Resolution := 300000 \<rparr> \<rparr>))"
    by (simp add: exampleGroup_def)
  show ?thesis
    using f m1 m2 l1 r1 r2
      AppendMeta_guards_membership
        [of "exampleGroup False [exampleBlock 1 0 10 5]" "exampleBlock 2 10 20 5"
            "exampleGroup False [exampleBlock 1 0 10 5, exampleBlock 2 10 20 5]"
            "exampleBlock 1 0 10 5" "exampleBlock 2 10 20 5"]
      AppendMeta_guards_membership
        [of "exampleGroup False [exampleBlock 1 0 10 5]"
            "(exampleBlock 2 10 20 5) \<lparr> Thanos := exampleThanos \<lparr> Resolution := 300000 \<rparr> \<rparr>"]
    by blast
qed

lemma Groups_loop_sorted:
  "Groups_loop GK g bs res = Inr res' \<Longrightarrow> distinct (map key res) \<Longrightarrow>
   \<forall>gr\<in>set res. sorted_wrt (\<lambda>a b. MinTime (BlockMeta a) \<le> MinTime (BlockMeta b)) (metasByMinTime gr) \<Longrightarrow>
   distinct (map key res') \<and>
   (\<forall>gr\<in>set res'. sorted_wrt (\<lambda>a b. MinTime (BlockMeta a) \<le> MinTime (BlockMeta b)) (metasByMinTime gr))"
proof (induction bs arbitrary: res)
  case Nil
  then show ?case by simp
next
  case (Cons m bs)
  let ?S = "\<lambda>gr. sorted_wrt (\<lambda>a b. MinTime (BlockMeta a) \<le> MinTime (BlockMeta b)) (metasByMinTime gr)"
  show ?case
  proof (cases "find (\<lambda>gr. key gr = GK (Thanos m)) res")
    case None
    with Cons.prems(1) obtain grp grp' where
      n: "NewGroup (GK (Thanos m)) (FromMap (Labels (Thanos m))) (Resolution (Thanos m))
                  (g_acceptMalformedIndex g) (g_enableVerticalCompaction g)
                  (g_blockFilesConcurrency g) (g_compactBlocksFetchConcurrency g) = Inr grp"
      and a: "AppendMeta grp m = (Nil, grp')"
      and l: "Groups_loop GK g bs (res @ [grp']) = Inr res'"
      by (auto simp: Let_def split: sum.splits prod.splits if_splits)
    from n have "key grp = GK (Thanos m)" by (auto simp: NewGroup_def split: if_splits)
    with AppendMeta_result[OF a] have k: "key grp' = GK (Thanos m)" and s: "?S grp'" by auto
    from None have "GK (Thanos m) \<notin> key ` set res" by (auto simp: find_None_iff)
    with k Cons.prems(2) have d: "distinct (map key (res @ [grp']))" by auto
    from s Cons.prems(3) have "\<forall>gr\<in>set (res @ [grp']). ?S gr" by auto
    from Cons.IH[OF l d this] show ?thesis .
  next
    case (Some grp)
    with Cons.prems(1) obtain grp' where
      a: "AppendMeta grp m = (Nil, grp')"
      and l: "Groups_loop GK g bs (map (\<lambda>gr. if key gr = GK (Thanos m) then grp' else gr) res) = Inr res'"
      by (auto simp: Let_def split: sum.splits prod.splits if_splits)
    from Some have "key grp = GK (Thanos m)" by (auto simp: find_Some_iff)
    with AppendMeta_result[OF a] have k: "key grp' = GK (Thanos m)" and s: "?S grp'" by auto
    from k have e: "map key (map (\<lambda>gr. if key gr = GK (Thanos m) then grp' else gr) res) = map key res"
      by simp
    have d: "distinct (map key (map (\<lambda>gr. if key gr = GK (Thanos m) then grp' else gr) res))"
      unfolding e by (rule Cons.prems(2))
    from s Cons.prems(3) have "\<forall>gr\<in>set (map (\<lambda>gr. if key gr = GK (Thanos m) then grp' else gr) res). ?S gr" by auto
    from Cons.IH[OF l d this] show ?thesis .
  qed
qed

lemma sort_Slice_strict:
  fixes f :: "'a \<Rightarrow> 'b::linorder"
  assumes "distinct (map f xs)"
  shows "sorted_wrt (\<lambda>a b. f a < f b) (sort_Slice (\<lambda>a b. f a < f b) xs)"
proof -
  let ?ys = "sort_Slice (\<lambda>a b. f a < f b) xs"
  have "mset (map f ?ys) = mset (map f xs)" by (simp add: mset_sort_Slice)
  with assms have d: "distinct (map f ?ys)" by (metis mset_eq_imp_distinct_iff)
  have "sorted (map f ?ys)"
    using sorted_sort_Slice[of f xs] by (simp add: sorted_map)
  with d have "sorted_wrt (<) (map f ?ys)" by (simp add: strict_sorted_iff)
  then show ?thesis by (simp add: sorted_wrt_map)
qed

text \<open>
  C8, amended. When \<^verbatim>\<open>Groups\<close> returns groups, they are in strictly ascending order
  of their keys, and within every group \<^verbatim>\<open>metasByMinTime\<close> is in ascending order of
  \<open>minTime\<close>. (Blocks of equal \<open>minTime\<close> are in no order of their identifiers.)
\<close>

theorem Groups_sorted:
  assumes "Groups GroupKey g metas = Inr res"
  shows "sorted_wrt (\<lambda>a b. Key a < Key b) res \<and>
         (\<forall>gr\<in>set res. sorted_wrt (\<lambda>a b. MinTime (BlockMeta a) \<le> MinTime (BlockMeta b))
                           (metasByMinTime gr))"
proof -
  from assms obtain res0 where l: "Groups_loop GroupKey g metas [] = Inr res0"
    and r: "res = sort_Slice (\<lambda>a b. Key a < Key b) res0"
    by (auto simp: Groups_def split: sum.splits)
  from Groups_loop_sorted[OF l] have d: "distinct (map key res0)"
    and s: "\<forall>gr\<in>set res0. sorted_wrt (\<lambda>a b. MinTime (BlockMeta a) \<le> MinTime (BlockMeta b)) (metasByMinTime gr)"
    by auto
  have k: "Key = key" by (auto simp: Key_def)
  show ?thesis
    using sort_Slice_strict[of Key res0] d s r by (simp add: set_sort_Slice k)
qed

lemma Groups_example_ties:
  "Groups exampleGroupKey exampleGrouper [exampleBlock 3 0 10 5, exampleBlock 2 0 10 5]
     = Inr [exampleGroup False [exampleBlock 3 0 10 5, exampleBlock 2 0 10 5]]"
  by (simp add: Groups_def exampleGroupKey_def exampleGrouper_def exampleBlock_def exampleThanos_def
      exampleGroup_def NewGroup_def AppendMeta_def Equal_def FromMap_fmempty sort_Slice_def Wrap_def)

text \<open>
  C8, as stated, fails: two blocks of one group with the same \<open>minTime\<close>, visited
  in descending order of their identifiers, stay in that order. \<^verbatim>\<open>AppendMeta\<close>
  sorts by \<open>MinTime\<close> alone.
\<close>

theorem Groups_ties_counterexample:
  "Groups exampleGroupKey exampleGrouper [exampleBlock 3 0 10 5, exampleBlock 2 0 10 5]
     = Inr [exampleGroup False [exampleBlock 3 0 10 5, exampleBlock 2 0 10 5]] \<and>
   \<not> spec_sortedByMinTimeThenID
       (metasByMinTime (exampleGroup False [exampleBlock 3 0 10 5, exampleBlock 2 0 10 5]))"
  using Groups_example_ties
  by (simp add: spec_sortedByMinTimeThenID_def exampleGroup_def exampleBlock_def)

lemma Groups_example_two:
  "Groups exampleGroupKey exampleGrouper
     [(exampleBlock 3 0 10 5) \<lparr> Thanos := exampleThanos \<lparr> Resolution := 300000 \<rparr> \<rparr>,
      exampleBlock 2 10 20 5, exampleBlock 1 0 10 5]
     = Inr [exampleGroup False [exampleBlock 1 0 10 5, exampleBlock 2 10 20 5],
            (exampleGroup False
               [(exampleBlock 3 0 10 5) \<lparr> Thanos := exampleThanos \<lparr> Resolution := 300000 \<rparr> \<rparr>])
              \<lparr> key := ''1@'', resolution := 300000 \<rparr>]"
  by (simp add: Groups_def exampleGroupKey_def exampleGrouper_def exampleBlock_def exampleThanos_def
      exampleGroup_def NewGroup_def AppendMeta_def Equal_def FromMap_fmempty sort_Slice_def Wrap_def Key_def)

theorem Groups_sorted_witness:
  "sorted_wrt (\<lambda>a b. Key a < Key b)
     [exampleGroup False [exampleBlock 1 0 10 5, exampleBlock 2 10 20 5],
      (exampleGroup False
         [(exampleBlock 3 0 10 5) \<lparr> Thanos := exampleThanos \<lparr> Resolution := 300000 \<rparr> \<rparr>])
        \<lparr> key := ''1@'', resolution := 300000 \<rparr>] \<and>
   sorted_wrt (\<lambda>a b. MinTime (BlockMeta a) \<le> MinTime (BlockMeta b))
     (metasByMinTime (exampleGroup False [exampleBlock 1 0 10 5, exampleBlock 2 10 20 5]))"
  using Groups_sorted[OF Groups_example_two] by simp

section \<open>Overlap check before planning\<close>

lemma overlapScan_pending:
  assumes "sorted_wrt (\<lambda>a b. MinTime a \<le> MinTime b) bm"
    and "p \<in> set pending" and "b \<in> set bm" and "MinTime b < MaxTime p"
  shows "overlapScan pending bm \<noteq> []"
proof (cases bm)
  case Nil
  with assms(3) show ?thesis by simp
next
  case (Cons c cs)
  with assms(1,3) have "MinTime c \<le> MinTime b" by auto
  with assms(4) have "MinTime c < MaxTime p" by simp
  with assms(2) have "filter (\<lambda>p. \<not> MinTime c \<ge> MaxTime p) pending \<noteq> []"
    by (force simp: filter_empty_conv not_le)
  with Cons show ?thesis by (simp add: Let_def)
qed

lemma overlapScan_later:
  assumes "sorted_wrt (\<lambda>a b. MinTime a \<le> MinTime b) (us @ a # vs @ b # ws)"
    and "MinTime b < MaxTime a"
  shows "overlapScan pending (us @ a # vs @ b # ws) \<noteq> []"
  using assms(1)
proof (induction us arbitrary: pending)
  case Nil
  then have s: "sorted_wrt (\<lambda>a b. MinTime a \<le> MinTime b) (vs @ b # ws)" by simp
  have "overlapScan (filter (\<lambda>p. \<not> MinTime a \<ge> MaxTime p) pending @ [a]) (vs @ b # ws) \<noteq> []"
    by (rule overlapScan_pending[OF s, of a _ b]) (use assms(2) in auto)
  then show ?case by (simp add: Let_def)
next
  case (Cons u us)
  then have "sorted_wrt (\<lambda>a b. MinTime a \<le> MinTime b) (us @ a # vs @ b # ws)" by simp
  from Cons.IH[OF this] show ?case by (simp add: Let_def)
qed

lemma OverlappingBlocks_scan: "OverlappingBlocks bm = overlapScan [] bm"
  by (induction bm rule: OverlappingBlocks.induct) (simp_all add: Let_def)

lemma two_positions:
  assumes "i < j" "j < length xs"
  shows "\<exists>us vs ws. xs = us @ xs ! i # vs @ xs ! j # ws"
proof -
  define r where "r = drop (Suc i) xs"
  from assms have i: "i < length xs" by simp
  have 1: "xs = take i xs @ xs ! i # r"
    unfolding r_def using i by (rule id_take_nth_drop)
  from assms have j: "j - Suc i < length r" by (auto simp: r_def)
  have 2: "r = take (j - Suc i) r @ r ! (j - Suc i) # drop (Suc (j - Suc i)) r"
    using j by (rule id_take_nth_drop)
  from assms have 3: "r ! (j - Suc i) = xs ! j" by (simp add: r_def)
  have "take i xs @ xs ! i # r
          = take i xs @ xs ! i # take (j - Suc i) r @ xs ! j # drop (Suc (j - Suc i)) r"
    using 2 3 by simp
  with 1 have "xs = take i xs @ xs ! i # take (j - Suc i) r @ xs ! j # drop (Suc (j - Suc i)) r"
    by (rule trans)
  then show ?thesis by blast
qed

lemma permuted_positions:
  assumes "xs = us @ a # vs @ b # ws" and "mset ys = mset xs"
  shows "(\<exists>us' vs' ws'. ys = us' @ a # vs' @ b # ws') \<or> (\<exists>us' vs' ws'. ys = us' @ b # vs' @ a # ws')"
proof -
  from assms(2) have "set ys = set xs" by (rule mset_eq_setD)
  with assms(1) have "a \<in> set ys" by simp
  then obtain p q where ys: "ys = p @ a # q" by (auto simp: in_set_conv_decomp)
  with assms have "mset (p @ q) = mset (us @ vs @ b # ws)" by simp
  then have "set (p @ q) = set (us @ vs @ b # ws)" by (rule mset_eq_setD)
  then have "b \<in> set (p @ q)" by simp
  then consider "b \<in> set p" | "b \<in> set q" by auto
  then show ?thesis
  proof cases
    case 1
    then obtain p1 p2 where "p = p1 @ b # p2" by (auto simp: in_set_conv_decomp)
    with ys have "ys = p1 @ b # p2 @ a # q" by simp
    then show ?thesis by blast
  next
    case 2
    then obtain q1 q2 where "q = q1 @ b # q2" by (auto simp: in_set_conv_decomp)
    with ys have "ys = p @ a # q1 @ b # q2" by simp
    then show ?thesis by blast
  qed
qed


lemma overlap_detected:
  fixes ms :: "BlockMeta list"
  assumes "i < j" "j < length ms" "ranges_overlap (ms ! i) (ms ! j)"
  shows "OverlappingBlocks (sort_Slice (\<lambda>a b. MinTime a < MinTime b) ms) \<noteq> []"
proof -
  let ?ys = "sort_Slice (\<lambda>a b. MinTime a < MinTime b) ms"
  have sorted: "sorted_wrt (\<lambda>a b. MinTime a \<le> MinTime b) ?ys"
    by (rule sorted_sort_Slice)
  from two_positions[OF assms(1,2)] obtain us vs ws where
    ms: "ms = us @ ms ! i # vs @ ms ! j # ws" by blast
  have later: "overlapScan [] (us' @ a # vs' @ b # ws') \<noteq> []"
    if ys: "?ys = us' @ a # vs' @ b # ws'" and ov: "ranges_overlap a b" for us' vs' ws' a b
  proof -
    from sorted ys have "MinTime a \<le> MinTime b" by (simp add: sorted_wrt_append)
    with ov have "MinTime b < MaxTime a" by (simp add: ranges_overlap_def)
    with sorted ys show ?thesis by (intro overlapScan_later) simp_all
  qed
  have sym: "ranges_overlap (ms ! j) (ms ! i)"
    using assms(3) by (simp add: ranges_overlap_def max.commute min.commute)
  from permuted_positions[OF ms mset_sort_Slice]
  consider us' vs' ws' where "?ys = us' @ ms ! i # vs' @ ms ! j # ws'"
    | us' vs' ws' where "?ys = us' @ ms ! j # vs' @ ms ! i # ws'"
    by blast
  then have "overlapScan [] ?ys \<noteq> []"
  proof cases
    case 1
    from later[OF 1 assms(3)] 1 show ?thesis by simp
  next
    case 2
    from later[OF 2 sym] 2 show ?thesis by simp
  qed
  then show ?thesis by (simp add: OverlappingBlocks_scan)
qed

lemma areBlocksOverlapping_pre_check:
  assumes "i < j" and "j < length (metasByMinTime cg)"
    and "ranges_overlap (BlockMeta (metasByMinTime cg ! i)) (BlockMeta (metasByMinTime cg ! j))"
  shows "areBlocksOverlapping cg None [] = ErrorString ''overlaps found while gathering blocks. %s''"
proof -
  have "OverlappingBlocks (sort_Slice (\<lambda>a b. MinTime a < MinTime b)
          (map BlockMeta (metasByMinTime cg))) \<noteq> []"
    using assms by (intro overlap_detected[of i j]) simp_all
  then show ?thesis by (simp add: areBlocksOverlapping_def)
qed

lemma Compact_of_compact_error:
  assumes "compact env cg (Join dir (Key cg)) = ((r, ids, err), [])" and "err \<noteq> Nil"
  shows "filter isMarkForDeletion (snd (Compact env cg dir)) = [] \<and>
         (os_MkdirAll env (Join dir (Key cg)) = None \<longrightarrow>
            fst (Compact env cg dir) = (False, [], err))"
  using assms by (auto simp: Compact_def Let_def split: option.splits)

text \<open>
  C1. When two blocks of the group have overlapping ranges and vertical compaction
  is disabled, \<^verbatim>\<open>compact\<close> makes no call at all and returns a halt error whose
  message starts with "pre compaction overlap check". \<^verbatim>\<open>Compact\<close> writes no
  deletion marker, and returns that error once it has created the work directory
  in which it runs \<^verbatim>\<open>compact\<close>.
\<close>

theorem compact_halts_on_overlap:
  assumes "i < j" and "j < length (metasByMinTime cg)"
    and "ranges_overlap (BlockMeta (metasByMinTime cg ! i)) (BlockMeta (metasByMinTime cg ! j))"
    and "\<not> enableVerticalCompaction cg"
  shows "\<exists>err rest.
           compact env cg dir = ((False, [], err), []) \<and>
           IsHaltError err \<and>
           Error err = Some (''pre compaction overlap check'' @ rest) \<and>
           filter isMarkForDeletion (snd (Compact env cg dir)) = [] \<and>
           (os_MkdirAll env (Join dir (Key cg)) = None \<longrightarrow>
              fst (Compact env cg dir) = (False, [], err))"
proof -
  let ?err = "HaltError (WithMessage ''pre compaction overlap check''
                (ErrorString ''overlaps found while gathering blocks. %s''))"
  have c: "compact env cg d = ((False, [], ?err), [])" for d
    using areBlocksOverlapping_pre_check[OF assms(1-3)] assms(4)
    by (simp add: compact_def halt_def Wrap_def)
  have h: "IsHaltError ?err" by (simp add: IsHaltError_def)
  have m: "Error ?err = Some (''pre compaction overlap check''
                                @ '': overlaps found while gathering blocks. %s'')"
    by simp
  have n: "?err \<noteq> Nil" by simp
  note k = Compact_of_compact_error[OF c n, of dir]
  show ?thesis
  proof (intro exI conjI)
    show "compact env cg dir = ((False, [], ?err), [])" by (rule c)
    show "IsHaltError ?err" by (rule h)
    show "Error ?err = Some (''pre compaction overlap check''
                               @ '': overlaps found while gathering blocks. %s'')"
      by (rule m)
    show "filter isMarkForDeletion (snd (Compact env cg dir)) = []" using k by simp
    show "os_MkdirAll env (Join dir (Key cg)) = None \<longrightarrow>
            fst (Compact env cg dir) = (False, [], ?err)"
      using k by simp
  qed
qed

theorem compact_halts_on_overlap_witness:
  "IsHaltError (snd (snd (fst (Compact (exampleEnv (\<lambda>ms. ms) [9] True)
       (exampleGroup False [exampleBlock 1 0 7200000 100, exampleBlock 2 3600000 10800000 100])
       ''data'')))) \<and>
   filter isMarkForDeletion (snd (Compact (exampleEnv (\<lambda>ms. ms) [9] True)
       (exampleGroup False [exampleBlock 1 0 7200000 100, exampleBlock 2 3600000 10800000 100])
       ''data'')) = []"
proof -
  let ?cg = "exampleGroup False [exampleBlock 1 0 7200000 100, exampleBlock 2 3600000 10800000 100]"
  have 1: "(0::nat) < 1" by simp
  have 2: "1 < length (metasByMinTime ?cg)" by (simp add: exampleGroup_def)
  have 3: "ranges_overlap (BlockMeta (metasByMinTime ?cg ! 0)) (BlockMeta (metasByMinTime ?cg ! 1))"
    by (simp add: exampleGroup_def exampleBlock_def ranges_overlap_def)
  have 4: "\<not> enableVerticalCompaction ?cg" by (simp add: exampleGroup_def)
  have 5: "os_MkdirAll (exampleEnv (\<lambda>ms. ms) [9] True) (Join ''data'' (Key ?cg)) = None"
    by (simp add: exampleEnv_def)
  from compact_halts_on_overlap[OF 1 2 3 4, of "exampleEnv (\<lambda>ms. ms) [9] True" "''data''"] 5
  show ?thesis by auto
qed

section \<open>The calls of a compaction\<close>

lemma markersWritten_append: "markersWritten (xs @ ys) = markersWritten xs @ markersWritten ys"
  by (induction xs rule: markersWritten.induct) simp_all

lemma markersWritten_none: "\<forall>ev\<in>set evs. \<not> isMarkForDeletion ev \<Longrightarrow> markersWritten evs = []"
  by (induction evs rule: markersWritten.induct) simp_all

lemma deleteBlock_events:
  "ev \<in> set (snd (deleteBlock env cg b bdir)) \<Longrightarrow>
     \<not> isPlan ev \<and> \<not> isCompactorCall ev \<and> \<not> isUpload ev \<and> \<not> isDownload ev"
  by (auto simp: deleteBlock_def split: option.splits if_splits)

lemma deleteBlock_markers:
  "markersWritten (snd (deleteBlock env cg b bdir)) =
     (if os_RemoveAll env bdir = None \<and> checker_CanDelete env cg b \<and>
         block_MarkForDeletion env b ''source of compacted block'' = None
      then [(b, ''source of compacted block'')] else [])"
  by (auto simp: deleteBlock_def split: option.splits if_splits)

lemma downloadBlock_events:
  "ev \<in> set (snd (downloadBlock env cg dir m)) \<Longrightarrow>
     \<not> isPlan ev \<and> \<not> isCompactorCall ev \<and> \<not> isUpload ev \<and> \<not> isMarkForDeletion ev"
  by (auto simp: downloadBlock_def Let_def split: option.splits prod.splits if_splits)

lemma downloadBlocks_events:
  "ev \<in> set (snd (downloadBlocks env cg dir ms)) \<Longrightarrow>
     \<not> isPlan ev \<and> \<not> isCompactorCall ev \<and> \<not> isUpload ev \<and> \<not> isMarkForDeletion ev"
proof (induction ms)
  case Nil
  then show ?case by simp
next
  case (Cons m ms)
  then show ?case
    using downloadBlock_events[of ev env cg dir m]
    by (auto split: prod.splits if_splits)
qed

lemma deleteEmptyBlocks_events:
  "ev \<in> set (deleteEmptyBlocks env cg dir ms) \<Longrightarrow>
     \<not> isPlan ev \<and> \<not> isCompactorCall ev \<and> \<not> isUpload ev \<and> \<not> isDownload ev"
proof (induction ms)
  case Nil
  then show ?case by simp
next
  case (Cons m ms)
  then show ?case
    using deleteBlock_events[of ev env cg "ULID (BlockMeta m)" "Join dir (ULID_String env (ULID (BlockMeta m)))"]
    by (auto split: if_splits)
qed

lemma deleteEmptyBlocks_markers:
  "markersWritten (deleteEmptyBlocks env cg dir ms) =
     map (\<lambda>m. (ULID (BlockMeta m), ''source of compacted block''))
       (filter (\<lambda>m. NumSamples (BlockMeta m) = 0 \<and> marksBlock env cg dir m) ms)"
  by (induction ms) (auto simp: markersWritten_append deleteBlock_markers marksBlock_def)

lemma uploadBlock_events:
  "ev \<in> set (snd (uploadBlock env cg bdir compID)) \<Longrightarrow> \<not> isPlan ev \<and> \<not> isCompactorCall ev"
  by (auto simp: uploadBlock_def Let_def split: option.splits if_splits)

lemma finalizeBlock_events:
  "ev \<in> set (snd (finalizeBlock env cg dir toCompact compID)) \<Longrightarrow>
     \<not> isPlan ev \<and> \<not> isCompactorCall ev"
  using uploadBlock_events[of ev env cg "Join dir (ULID_String env compID)" compID]
  by (auto simp: finalizeBlock_def prepend_def Let_def split: option.splits prod.splits if_splits)


lemma finalizeBlocks_events:
  "ev \<in> set (snd (finalizeBlocks env cg dir toCompact compIDs)) \<Longrightarrow>
     \<not> isPlan ev \<and> \<not> isCompactorCall ev"
proof (induction compIDs)
  case Nil
  then show ?case by simp
next
  case (Cons c compIDs)
  then show ?case
    using finalizeBlock_events[of ev env cg dir toCompact c]
    by (auto simp: prepend_def split: prod.splits if_splits)
qed

lemma markCompacted_events:
  "ev \<in> set (snd (markCompacted env cg dir ms)) \<Longrightarrow> \<not> isPlan ev \<and> \<not> isCompactorCall ev"
proof (induction ms)
  case Nil
  then show ?case by simp
next
  case (Cons m ms)
  then show ?case
    using deleteBlock_events[of ev env cg "ULID (BlockMeta m)" "Join dir (ULID_String env (ULID (BlockMeta m)))"]
    by (auto simp: prepend_def split: prod.splits if_splits)
qed

lemma mergeBlocks_events:
  assumes "ev \<in> set (snd (mergeBlocks env cg dir ov toCompact))"
  shows "\<not> isPlan ev \<and>
         (isCompactorCall ev \<longrightarrow>
            GetBlockPopulator env cg = Nil \<and>
            ev = CompactWithBlockPopulator dir
                   (map (\<lambda>m. Join dir (ULID_String env (ULID (BlockMeta m)))) toCompact)
                   (fst (comp_CompactWithBlockPopulator env dir
                      (map (\<lambda>m. Join dir (ULID_String env (ULID (BlockMeta m)))) toCompact)))
                   (snd (comp_CompactWithBlockPopulator env dir
                      (map (\<lambda>m. Join dir (ULID_String env (ULID (BlockMeta m)))) toCompact))))"
proof -
  let ?dirs = "map (\<lambda>m. Join dir (ULID_String env (ULID (BlockMeta m)))) toCompact"
  obtain compIDs err where c: "comp_CompactWithBlockPopulator env dir ?dirs = (compIDs, err)"
    by (cases "comp_CompactWithBlockPopulator env dir ?dirs") auto
  obtain ferr fevs where f: "finalizeBlocks env cg dir toCompact compIDs = (ferr, fevs)"
    by (cases "finalizeBlocks env cg dir toCompact compIDs") auto
  obtain merr mevs where m: "markCompacted env cg dir toCompact = (merr, mevs)"
    by (cases "markCompacted env cg dir toCompact") auto
  have fe: "\<not> isPlan x \<and> \<not> isCompactorCall x" if "x \<in> set fevs" for x
    using that finalizeBlocks_events[of x env cg dir toCompact compIDs] f by simp
  have me: "\<not> isPlan x \<and> \<not> isCompactorCall x" if "x \<in> set mevs" for x
    using that markCompacted_events[of x env cg dir toCompact] m by simp
  have de: "\<not> isPlan x \<and> \<not> isCompactorCall x"
    if "x \<in> set (deleteEmptyBlocks env cg dir toCompact)" for x
    using that deleteEmptyBlocks_events[of x env cg dir toCompact] by simp
  show ?thesis
    using assms c f m fe[of ev] me[of ev] de[of ev]
    by (auto simp: mergeBlocks_def Let_def split: if_splits)
qed

lemma mergeBlocks_empty_result:
  assumes "CompactWithBlockPopulator d ds [] Nil \<in> set (snd (mergeBlocks env cg dir ov toCompact))"
  shows "mergeBlocks env cg dir ov toCompact =
           ((True, [], Nil),
            [BlockPopulator Nil,
             CompactWithBlockPopulator dir
               (map (\<lambda>m. Join dir (ULID_String env (ULID (BlockMeta m)))) toCompact) [] Nil]
            @ deleteEmptyBlocks env cg dir toCompact)"
proof -
  let ?dirs = "map (\<lambda>m. Join dir (ULID_String env (ULID (BlockMeta m)))) toCompact"
  from mergeBlocks_events[OF assms]
  have "GetBlockPopulator env cg = Nil"
    and "comp_CompactWithBlockPopulator env dir ?dirs = ([], Nil)"
    by (auto simp: prod_eq_iff)
  then show ?thesis by (simp add: mergeBlocks_def Let_def)
qed

lemma compact_plan_first:
  assumes "Plan ms toCompact e \<in> set (snd (compact env cg dir))"
  shows "ms = metasByMinTime cg \<and>
         planner_Plan env (metasByMinTime cg) (extensions cg) = (toCompact, e)"
proof -
  obtain toC e0 where p: "planner_Plan env (metasByMinTime cg) (extensions cg) = (toC, e0)"
    by (cases "planner_Plan env (metasByMinTime cg) (extensions cg)") auto
  obtain derr devs where d: "downloadBlocks env cg dir toC = (derr, devs)"
    by (cases "downloadBlocks env cg dir toC") auto
  obtain res mevs where
    m: "mergeBlocks env cg dir (areBlocksOverlapping cg None [] \<noteq> Nil) toC = (res, mevs)"
    by (cases "mergeBlocks env cg dir (areBlocksOverlapping cg None [] \<noteq> Nil) toC") auto
  have de: "\<not> isPlan x" if "x \<in> set devs" for x
    using that downloadBlocks_events[of x env cg dir toC] d by simp
  have me: "\<not> isPlan x" if "x \<in> set mevs" for x
    using that mergeBlocks_events[of x env cg dir "areBlocksOverlapping cg None [] \<noteq> Nil" toC] m
    by simp
  show ?thesis
    using assms p d m de[of "Plan ms toCompact e"] me[of "Plan ms toCompact e"]
    by (auto simp: compact_def Let_def split: if_splits)
qed

lemma compact_empty_result:
  assumes "CompactWithBlockPopulator d ds [] Nil \<in> set (snd (compact env cg dir))"
  shows "compact env cg dir =
           ((True, [], Nil),
            [Plan (metasByMinTime cg)
               (fst (planner_Plan env (metasByMinTime cg) (extensions cg))) Nil,
             PreCompaction (fst (planner_Plan env (metasByMinTime cg) (extensions cg))) Nil]
            @ snd (downloadBlocks env cg dir
                     (fst (planner_Plan env (metasByMinTime cg) (extensions cg))))
            @ [BlockPopulator Nil,
               CompactWithBlockPopulator dir
                 (map (\<lambda>m. Join dir (ULID_String env (ULID (BlockMeta m))))
                    (fst (planner_Plan env (metasByMinTime cg) (extensions cg)))) [] Nil]
            @ deleteEmptyBlocks env cg dir
                (fst (planner_Plan env (metasByMinTime cg) (extensions cg))))"
proof -
  let ?ev = "CompactWithBlockPopulator d ds [] Nil"
  obtain toC e0 where p: "planner_Plan env (metasByMinTime cg) (extensions cg) = (toC, e0)"
    by (cases "planner_Plan env (metasByMinTime cg) (extensions cg)") auto
  obtain derr devs where dl: "downloadBlocks env cg dir toC = (derr, devs)"
    by (cases "downloadBlocks env cg dir toC") auto
  let ?ov = "areBlocksOverlapping cg None [] \<noteq> Nil"
  obtain res mevs where m: "mergeBlocks env cg dir ?ov toC = (res, mevs)"
    by (cases "mergeBlocks env cg dir ?ov toC") auto
  have de: "\<not> isCompactorCall x" if "x \<in> set devs" for x
    using that downloadBlocks_events[of x env cg dir toC] dl by simp
  have i: "isCompactorCall ?ev" by simp
  from assms p dl m de[of ?ev] i
  have reach: "e0 = Nil \<and> toC \<noteq> [] \<and> PreCompactionCallback env cg toC = Nil \<and> derr = Nil \<and>
               \<not> (areBlocksOverlapping cg None [] \<noteq> Nil \<and> \<not> enableVerticalCompaction cg) \<and>
               ?ev \<in> set mevs"
    by (auto simp: compact_def Let_def split: if_splits)
  then have "?ev \<in> set (snd (mergeBlocks env cg dir ?ov toC))" using m by simp
  from mergeBlocks_empty_result[OF this] m
  have "res = (True, [], Nil)"
    and "mevs = [BlockPopulator Nil,
             CompactWithBlockPopulator dir
               (map (\<lambda>m. Join dir (ULID_String env (ULID (BlockMeta m)))) toC) [] Nil]
            @ deleteEmptyBlocks env cg dir toC"
    by simp_all
  with reach p dl m show ?thesis
    by (auto simp: compact_def Let_def)
qed

lemma compact_stops_on_empty_plan:
  assumes "Plan ms [] Nil \<in> set (snd (compact env cg dir))"
  shows "compact env cg dir = ((False, [], Nil), [Plan (metasByMinTime cg) [] Nil])"
proof -
  from compact_plan_first[OF assms]
  have p: "planner_Plan env (metasByMinTime cg) (extensions cg) = ([], Nil)" by simp
  have "\<not> (areBlocksOverlapping cg None [] \<noteq> Nil \<and> \<not> enableVerticalCompaction cg)"
  proof
    assume "areBlocksOverlapping cg None [] \<noteq> Nil \<and> \<not> enableVerticalCompaction cg"
    then have "snd (compact env cg dir) = []" by (simp add: compact_def Let_def)
    with assms show False by simp
  qed
  with p show ?thesis by (auto simp: compact_def Let_def)
qed

section \<open>Empty plan, empty result\<close>

text \<open>
  C3. When the planner, called by \<^verbatim>\<open>Compact\<close> on the group, returns an empty plan
  (for instance on an empty group), \<^verbatim>\<open>Compact\<close> returns \<open>(false, nil, nil)\<close>; it
  downloads, uploads and marks nothing: besides the planner call it creates and
  removes its work directory and counts the run.
\<close>

theorem Compact_empty_plan:
  assumes "Plan ms [] Nil \<in> set (snd (Compact env cg dir))"
  shows "fst (Compact env cg dir) = (False, [], Nil) \<and>
         filter (\<lambda>ev. isDownload ev \<or> isUpload ev \<or> isMarkForDeletion ev)
           (snd (Compact env cg dir)) = [] \<and>
         snd (Compact env cg dir) =
           [Inc ''compactionRunsStarted'', MkdirAll (Join dir (Key cg)) None,
            Plan (metasByMinTime cg) [] Nil, Inc ''compactionRunsCompleted'',
            RemoveAll (Join dir (Key cg)) (os_RemoveAll env (Join dir (Key cg)))] \<and>
         compact env cg (Join dir (Key cg)) =
           ((False, [], Nil), [Plan (metasByMinTime cg) [] Nil])"
proof -
  let ?sub = "Join dir (Key cg)"
  obtain r ids err evs where c: "compact env cg ?sub = ((r, ids, err), evs)"
    by (cases "compact env cg ?sub") auto
  from assms c have mk: "os_MkdirAll env ?sub = None" and "Plan ms [] Nil \<in> set evs"
    by (auto simp: Compact_def Let_def split: option.splits if_splits)
  then have "Plan ms [] Nil \<in> set (snd (compact env cg ?sub))" using c by simp
  from compact_stops_on_empty_plan[OF this]
  have e: "compact env cg ?sub = ((False, [], Nil), [Plan (metasByMinTime cg) [] Nil])" .
  with mk show ?thesis by (simp add: Compact_def Let_def)
qed

text \<open>
  The calls of \<^verbatim>\<open>Compact\<close> on which the planner returns an empty plan: the work
  directory is created, the overlap check lets the call through, and the planner
  answers with no block and no error.
\<close>

lemma Compact_plans_nothing_iff:
  "Plan (metasByMinTime cg) [] Nil \<in> set (snd (Compact env cg dir)) \<longleftrightarrow>
     os_MkdirAll env (Join dir (Key cg)) = None \<and>
     (areBlocksOverlapping cg None [] = Nil \<or> enableVerticalCompaction cg) \<and>
     planner_Plan env (metasByMinTime cg) (extensions cg) = ([], Nil)"
proof
  let ?sub = "Join dir (Key cg)"
  assume a: "Plan (metasByMinTime cg) [] Nil \<in> set (snd (Compact env cg dir))"
  obtain r ids err evs where c: "compact env cg ?sub = ((r, ids, err), evs)"
    by (cases "compact env cg ?sub") auto
  from a c have mk: "os_MkdirAll env ?sub = None"
    and "Plan (metasByMinTime cg) [] Nil \<in> set evs"
    by (auto simp: Compact_def Let_def split: option.splits if_splits)
  then have m: "Plan (metasByMinTime cg) [] Nil \<in> set (snd (compact env cg ?sub))"
    using c by simp
  have o: "areBlocksOverlapping cg None [] = Nil \<or> enableVerticalCompaction cg"
  proof (rule ccontr)
    assume "\<not> (areBlocksOverlapping cg None [] = Nil \<or> enableVerticalCompaction cg)"
    then have "snd (compact env cg ?sub) = []" by (simp add: compact_def Let_def)
    with m show False by simp
  qed
  from compact_plan_first[OF m] mk o
  show "os_MkdirAll env ?sub = None \<and>
        (areBlocksOverlapping cg None [] = Nil \<or> enableVerticalCompaction cg) \<and>
        planner_Plan env (metasByMinTime cg) (extensions cg) = ([], Nil)"
    by simp
next
  assume "os_MkdirAll env (Join dir (Key cg)) = None \<and>
     (areBlocksOverlapping cg None [] = Nil \<or> enableVerticalCompaction cg) \<and>
     planner_Plan env (metasByMinTime cg) (extensions cg) = ([], Nil)"
  then show "Plan (metasByMinTime cg) [] Nil \<in> set (snd (Compact env cg dir))"
    by (auto simp: Compact_def compact_def Let_def)
qed

lemma Compact_example_empty:
  "Compact (exampleEnv (\<lambda>ms. []) [9] True) (exampleGroup False []) ''data'' =
     ((False, [], Nil),
      [Inc ''compactionRunsStarted'', MkdirAll ''data/0@'' None, Plan [] [] Nil,
       Inc ''compactionRunsCompleted'', RemoveAll ''data/0@'' None])"
  by (simp add: Compact_def compact_def exampleEnv_def exampleGroup_def Join_def Key_def
      areBlocksOverlapping_def sort_Slice_def Let_def)

theorem Compact_empty_plan_witness:
  "fst (Compact (exampleEnv (\<lambda>ms. []) [9] True) (exampleGroup False []) ''data'')
     = (False, [], Nil)"
proof -
  have "Plan [] [] Nil
          \<in> set (snd (Compact (exampleEnv (\<lambda>ms. []) [9] True) (exampleGroup False []) ''data''))"
    by (simp add: Compact_example_empty)
  from Compact_empty_plan[OF this] show ?thesis by simp
qed

text \<open>
  C2, amended. When the low-level compactor returns no block, \<^verbatim>\<open>compact\<close> uploads
  nothing and returns \<open>(true, nil, nil)\<close>; the deletion markers it writes, with the
  reason "source of compacted block", are those of the planned blocks without
  samples whose local copy was removed, that the deletable checker lets delete, and
  whose marker write succeeds.
\<close>

theorem compact_no_result_blocks:
  assumes "CompactWithBlockPopulator d ds [] Nil \<in> set (snd (compact env cg dir))"
  shows "fst (compact env cg dir) = (True, [], Nil) \<and>
         filter isUpload (snd (compact env cg dir)) = [] \<and>
         markersWritten (snd (compact env cg dir)) =
           map (\<lambda>m. (ULID (BlockMeta m), ''source of compacted block''))
             (filter (\<lambda>m. NumSamples (BlockMeta m) = 0 \<and> marksBlock env cg dir m)
                (fst (planner_Plan env (metasByMinTime cg) (extensions cg))))"
proof -
  let ?toC = "fst (planner_Plan env (metasByMinTime cg) (extensions cg))"
  note c = compact_empty_result[OF assms]
  have d: "\<not> isUpload x \<and> \<not> isMarkForDeletion x"
    if "x \<in> set (snd (downloadBlocks env cg dir ?toC))" for x
    using that downloadBlocks_events[of x env cg dir ?toC] by simp
  have e: "\<not> isUpload x" if "x \<in> set (deleteEmptyBlocks env cg dir ?toC)" for x
    using that deleteEmptyBlocks_events[of x env cg dir ?toC] by simp
  have m: "markersWritten (snd (downloadBlocks env cg dir ?toC)) = []"
    using d by (intro markersWritten_none) simp
  have u: "filter isUpload (snd (compact env cg dir)) = []"
    unfolding c using d e by (auto simp: filter_empty_conv)
  have w: "markersWritten (snd (compact env cg dir)) =
           map (\<lambda>m. (ULID (BlockMeta m), ''source of compacted block''))
             (filter (\<lambda>m. NumSamples (BlockMeta m) = 0 \<and> marksBlock env cg dir m) ?toC)"
    unfolding c by (simp add: markersWritten_append m deleteEmptyBlocks_markers)
  from c u w show ?thesis by simp
qed

lemma compact_example_veto:
  "compact (exampleEnv (\<lambda>ms. ms) [] False)
     (exampleGroup False [exampleBlock 1 0 10 0, exampleBlock 2 10 20 0]) ''data'' =
   ((True, [], Nil),
    [Plan [exampleBlock 1 0 10 0, exampleBlock 2 10 20 0]
       [exampleBlock 1 0 10 0, exampleBlock 2 10 20 0] Nil,
     PreCompaction [exampleBlock 1 0 10 0, exampleBlock 2 10 20 0] Nil,
     Download 1 ''data/01'' None,
     GatherIndexHealthStats ''data/01/index'' 0 10 healthyStats None,
     Download 2 ''data/02'' None,
     GatherIndexHealthStats ''data/02/index'' 10 20 healthyStats None,
     BlockPopulator Nil,
     CompactWithBlockPopulator ''data'' [''data/01'', ''data/02''] [] Nil,
     RemoveAll ''data/01'' None, CanDelete 1 False,
     RemoveAll ''data/02'' None, CanDelete 2 False])"
  by (simp add: compact_def mergeBlocks_def downloadBlock_def deleteBlock_def
      exampleEnv_def exampleGroup_def exampleBlock_def exampleThanos_def healthyStats_def
      Join_def areBlocksOverlapping_def sort_Slice_def Let_def
      DefaultPreCompactionCallback_def halt_def)


text \<open>
  C2, as stated, fails: with a deletable checker that answers no, the compactor
  returns no block for two planned blocks without samples, and no marker is written.
\<close>

theorem compact_no_result_blocks_counterexample:
  "CompactWithBlockPopulator ''data'' [''data/01'', ''data/02''] [] Nil
     \<in> set (snd (compact (exampleEnv (\<lambda>ms. ms) [] False)
                    (exampleGroup False [exampleBlock 1 0 10 0, exampleBlock 2 10 20 0])
                    ''data'')) \<and>
   fst (planner_Plan (exampleEnv (\<lambda>ms. ms) [] False)
          (metasByMinTime (exampleGroup False [exampleBlock 1 0 10 0, exampleBlock 2 10 20 0]))
          (extensions (exampleGroup False [exampleBlock 1 0 10 0, exampleBlock 2 10 20 0])))
     = [exampleBlock 1 0 10 0, exampleBlock 2 10 20 0] \<and>
   NumSamples (BlockMeta (exampleBlock 1 0 10 0)) = 0 \<and>
   NumSamples (BlockMeta (exampleBlock 2 10 20 0)) = 0 \<and>
   markersWritten (snd (compact (exampleEnv (\<lambda>ms. ms) [] False)
                          (exampleGroup False [exampleBlock 1 0 10 0, exampleBlock 2 10 20 0])
                          ''data'')) = []"
  unfolding compact_example_veto
  by (simp add: exampleEnv_def exampleGroup_def exampleBlock_def)

lemma compact_example_mixed:
  "compact (exampleEnv (\<lambda>ms. ms) [] True)
     (exampleGroup False [exampleBlock 1 0 10 0, exampleBlock 2 10 20 5]) ''data'' =
   ((True, [], Nil),
    [Plan [exampleBlock 1 0 10 0, exampleBlock 2 10 20 5]
       [exampleBlock 1 0 10 0, exampleBlock 2 10 20 5] Nil,
     PreCompaction [exampleBlock 1 0 10 0, exampleBlock 2 10 20 5] Nil,
     Download 1 ''data/01'' None,
     GatherIndexHealthStats ''data/01/index'' 0 10 healthyStats None,
     Download 2 ''data/02'' None,
     GatherIndexHealthStats ''data/02/index'' 10 20 healthyStats None,
     BlockPopulator Nil,
     CompactWithBlockPopulator ''data'' [''data/01'', ''data/02''] [] Nil,
     RemoveAll ''data/01'' None, CanDelete 1 True,
     MarkForDeletion 1 ''source of compacted block'' None])"
  by (simp add: compact_def mergeBlocks_def downloadBlock_def deleteBlock_def
      exampleEnv_def exampleGroup_def exampleBlock_def exampleThanos_def healthyStats_def
      Join_def areBlocksOverlapping_def sort_Slice_def Let_def
      DefaultPreCompactionCallback_def halt_def)

theorem compact_no_result_blocks_witness:
  "fst (compact (exampleEnv (\<lambda>ms. ms) [] True)
          (exampleGroup False [exampleBlock 1 0 10 0, exampleBlock 2 10 20 5]) ''data'')
     = (True, [], Nil) \<and>
   markersWritten (snd (compact (exampleEnv (\<lambda>ms. ms) [] True)
          (exampleGroup False [exampleBlock 1 0 10 0, exampleBlock 2 10 20 5]) ''data''))
     = [(1, ''source of compacted block'')]"
proof -
  let ?env = "exampleEnv (\<lambda>ms. ms) [] True"
  let ?cg = "exampleGroup False [exampleBlock 1 0 10 0, exampleBlock 2 10 20 5]"
  have h: "CompactWithBlockPopulator ''data'' [''data/01'', ''data/02''] [] Nil
             \<in> set (snd (compact ?env ?cg ''data''))"
    by (simp add: compact_example_mixed)
  have f: "map (\<lambda>m. (ULID (BlockMeta m), ''source of compacted block''))
             (filter (\<lambda>m. NumSamples (BlockMeta m) = 0 \<and> marksBlock ?env ?cg ''data'' m)
                (fst (planner_Plan ?env (metasByMinTime ?cg) (extensions ?cg))))
           = [(1, ''source of compacted block'')]"
    by (simp add: exampleEnv_def exampleGroup_def exampleBlock_def marksBlock_def)
  from compact_no_result_blocks[OF h] f show ?thesis by simp
qed

section \<open>Compaction progress\<close>

lemma progressGroup_passedOver:
  assumes "passedOver plan (store st a)" and "progressGroup plan clock a st = (err, keep, st')"
  shows "st' = st \<and> \<not> keep"
  using assms
  by (auto simp: passedOver_def progressGroup_def Let_def split: prod.splits if_splits list.splits)

lemma progressGroup_skip:
  assumes "length (IDs (store st a)) = 1 \<or>
           plan (metasByMinTime (store st a)) (extensions (store st a)) = ([], Nil)"
  shows "progressGroup plan clock a st = (Nil, False, st)"
  using assms by (auto simp: progressGroup_def Let_def)

lemma progressGroup_frame:
  assumes "progressGroup plan clock a st = (err, keep, st')" and "a' \<noteq> a"
  shows "store st' a' = store st a'"
  using assms
  by (auto simp: progressGroup_def Let_def split: prod.splits if_splits list.splits)

lemma progressPass_unchanged:
  assumes "progressPass plan clock gs tmp st = (err, tmp', st')"
    and "set gs \<subseteq> G" and "set tmp \<subseteq> G"
    and "\<forall>a. a \<notin> G \<or> passedOver plan (heap a) \<longrightarrow> store st a = heap a"
  shows "set tmp' \<subseteq> G \<and> (\<forall>a. a \<notin> G \<or> passedOver plan (heap a) \<longrightarrow> store st' a = heap a)"
  using assms
proof (induction gs arbitrary: tmp st)
  case Nil
  then show ?case by simp
next
  case (Cons g gs)
  obtain e1 keep st1 where p: "progressGroup plan clock g st = (e1, keep, st1)"
    by (cases "progressGroup plan clock g st") auto
  have inv1: "\<forall>a. a \<notin> G \<or> passedOver plan (heap a) \<longrightarrow> store st1 a = heap a"
  proof (intro allI impI)
    fix a assume a: "a \<notin> G \<or> passedOver plan (heap a)"
    show "store st1 a = heap a"
    proof (cases "a = g")
      case True
      with a Cons.prems(2) have "passedOver plan (heap g)" by auto
      moreover from a Cons.prems(4) True have "store st g = heap g" by auto
      ultimately have "passedOver plan (store st g)" by simp
      from progressGroup_passedOver[OF this p] a Cons.prems(4) True show ?thesis by auto
    next
      case False
      from progressGroup_frame[OF p False] a Cons.prems(4) show ?thesis by auto
    qed
  qed
  show ?case
  proof (cases "e1 = Nil")
    case False
    with p Cons.prems(1) have "tmp' = tmp" "st' = st1" by auto
    with inv1 Cons.prems(3) show ?thesis by simp
  next
    case True
    with p Cons.prems(1)
    have r: "progressPass plan clock gs (if keep then tmp @ [g] else tmp) st1 = (err, tmp', st')"
      by simp
    from Cons.prems(2,3) have "set gs \<subseteq> G" "set (if keep then tmp @ [g] else tmp) \<subseteq> G" by auto
    from Cons.IH[OF r this inv1] show ?thesis .
  qed
qed

lemma progressLoop_unchanged:
  assumes "progressLoop fuel plan clock gs st = Some (err, st')"
    and "set gs \<subseteq> G"
    and "\<forall>a. a \<notin> G \<or> passedOver plan (heap a) \<longrightarrow> store st a = heap a"
  shows "\<forall>a. a \<notin> G \<or> passedOver plan (heap a) \<longrightarrow> store st' a = heap a"
  using assms
proof (induction fuel plan clock gs st rule: progressLoop.induct)
  case (1 fuel plan clock st)
  then show ?case by simp
next
  case (2 plan clock a groups st)
  then show ?case by simp
next
  case (3 fuel plan clock a groups st)
  obtain e1 tmp st1 where p: "progressPass plan clock (a # groups) [] st = (e1, tmp, st1)"
    by (cases "progressPass plan clock (a # groups) [] st") auto
  from progressPass_unchanged[OF p "3.prems"(2) _ "3.prems"(3)]
  have t: "set tmp \<subseteq> G" and inv1: "\<forall>a. a \<notin> G \<or> passedOver plan (heap a) \<longrightarrow> store st1 a = heap a"
    by auto
  show ?case
  proof (cases "e1 = Nil")
    case False
    with p "3.prems"(1) have "st' = st1" by auto
    with inv1 show ?thesis by simp
  next
    case True
    with p "3.prems"(1) have r: "progressLoop fuel plan clock tmp st1 = Some (err, st')" by simp
    from True have ne: "\<not> e1 \<noteq> Nil" by simp
    from "3.IH"[OF p[symmetric] refl ne r t inv1] show ?thesis .
  qed
qed


lemma progressPass_skip_all:
  assumes "\<forall>a\<in>set gs. length (IDs (store st a)) = 1 \<or>
             plan (metasByMinTime (store st a)) (extensions (store st a)) = ([], Nil)"
  shows "progressPass plan clock gs tmp st = (Nil, tmp, st)"
  using assms by (induction gs) (simp_all add: progressGroup_skip)

text \<open>
  C7, amended. \<^verbatim>\<open>ProgressCalculate\<close> simulates planning on the groups it is given:
  a call that returns leaves unchanged every group outside its list and every
  listed group it passes over (exactly one block identifier, or an empty plan);
  when it passes over every listed group it returns without error, the groups
  unchanged and both gauges at zero. Any other group is rewritten in place: planned
  blocks are removed and, while blocks remain, a synthetic meta is appended.
\<close>

theorem ProgressCalculate_changes_planned_groups_only:
  "(CompactionProgressCalculate fuel plan clock groups heap = Some (err, heap', gauges) \<longrightarrow>
      (\<forall>a. a \<notin> set groups \<or> passedOver plan (heap a) \<longrightarrow> heap' a = heap a)) \<and>
   ((\<forall>a\<in>set groups. length (IDs (heap a)) = 1 \<or>
         plan (metasByMinTime (heap a)) (extensions (heap a)) = ([], Nil)) \<longrightarrow>
      CompactionProgressCalculate (Suc fuel) plan clock groups heap = Some (Nil, heap, Some (0, 0)))"
proof (intro conjI impI)
  let ?st = "\<lparr> store = heap, groupCompactions = [], groupBlocks = [], ticks = 0 \<rparr>"
  assume c: "CompactionProgressCalculate fuel plan clock groups heap = Some (err, heap', gauges)"
  then obtain e st' where l: "progressLoop fuel plan clock groups ?st = Some (e, st')"
    and h: "heap' = store st'"
    by (auto simp: CompactionProgressCalculate_def split: option.splits if_splits)
  have "\<forall>a. a \<notin> set groups \<or> passedOver plan (heap a) \<longrightarrow> store st' a = heap a"
    by (rule progressLoop_unchanged[OF l]) simp_all
  with h show "\<forall>a. a \<notin> set groups \<or> passedOver plan (heap a) \<longrightarrow> heap' a = heap a" by simp
next
  let ?st = "\<lparr> store = heap, groupCompactions = [], groupBlocks = [], ticks = 0 \<rparr>"
  assume q: "\<forall>a\<in>set groups. length (IDs (heap a)) = 1 \<or>
         plan (metasByMinTime (heap a)) (extensions (heap a)) = ([], Nil)"
  then have p: "progressPass plan clock groups [] ?st = (Nil, [], ?st)"
    by (intro progressPass_skip_all) simp
  have "progressLoop (Suc fuel) plan clock groups ?st = Some (Nil, ?st)"
    using p by (cases groups) simp_all
  then show "CompactionProgressCalculate (Suc fuel) plan clock groups heap = Some (Nil, heap, Some (0, 0))"
    by (simp add: CompactionProgressCalculate_def)
qed

lemma ProgressCalculate_example:
  "CompactionProgressCalculate 1 planAll exampleClock [0]
     (exampleHeap [exampleBlock 2 0 10 5, exampleBlock 3 10 20 5])
   = Some (Nil,
           (exampleHeap [exampleBlock 2 0 10 5, exampleBlock 3 10 20 5])
             (0 := exampleGroup False []),
           Some (1, 2))"
proof -
  have h: "exampleHeap [exampleBlock 2 0 10 5, exampleBlock 3 10 20 5]
             = (\<lambda>a. exampleGroup False [exampleBlock 2 0 10 5, exampleBlock 3 10 20 5])"
    by (rule ext) (simp add: exampleHeap_def)
  show ?thesis
    unfolding h
    by (simp add: CompactionProgressCalculate_def progressGroup_def deleteFromGroup_def
        planAll_def exampleGroup_def exampleBlock_def IDs_def sort_Slice_def Let_def)
qed

text \<open>
  C7, as stated, fails: the calculator works on the groups it is given, not on
  copies. A group of two blocks that the planner plans together is left with an
  empty \<^verbatim>\<open>metasByMinTime\<close>.
\<close>

theorem ProgressCalculate_mutates_counterexample:
  "CompactionProgressCalculate 1 planAll exampleClock [0]
     (exampleHeap [exampleBlock 2 0 10 5, exampleBlock 3 10 20 5])
   = Some (Nil,
           (exampleHeap [exampleBlock 2 0 10 5, exampleBlock 3 10 20 5])
             (0 := exampleGroup False []),
           Some (1, 2)) \<and>
   metasByMinTime (((exampleHeap [exampleBlock 2 0 10 5, exampleBlock 3 10 20 5])
                      (0 := exampleGroup False [])) 0)
     \<noteq> metasByMinTime (exampleHeap [exampleBlock 2 0 10 5, exampleBlock 3 10 20 5] 0)"
  using ProgressCalculate_example by (simp add: exampleGroup_def exampleHeap_def)

theorem ProgressCalculate_changes_planned_groups_only_witness:
  "((exampleHeap [exampleBlock 2 0 10 5, exampleBlock 3 10 20 5])
      (0 := exampleGroup False [])) 1
     = exampleHeap [exampleBlock 2 0 10 5, exampleBlock 3 10 20 5] 1 \<and>
   CompactionProgressCalculate (Suc 0) planAll exampleClock [0]
     (exampleHeap [exampleBlock 2 0 10 5])
     = Some (Nil, exampleHeap [exampleBlock 2 0 10 5], Some (0, 0))"
proof -
  have n: "(1::nat) \<notin> set [0]" by simp
  have q: "\<forall>a\<in>set [0::nat]. length (IDs (exampleHeap [exampleBlock 2 0 10 5] a)) = 1 \<or>
             planAll (metasByMinTime (exampleHeap [exampleBlock 2 0 10 5] a))
               (extensions (exampleHeap [exampleBlock 2 0 10 5] a)) = ([], Nil)"
    by (simp add: exampleHeap_def exampleGroup_def IDs_def sort_Slice_def)
  from ProgressCalculate_changes_planned_groups_only
         [of 1 planAll exampleClock "[0]"
             "exampleHeap [exampleBlock 2 0 10 5, exampleBlock 3 10 20 5]" Nil
             "(exampleHeap [exampleBlock 2 0 10 5, exampleBlock 3 10 20 5])
                (0 := exampleGroup False [])" "Some (1, 2)"]
       ProgressCalculate_example n
  have 1: "((exampleHeap [exampleBlock 2 0 10 5, exampleBlock 3 10 20 5])
              (0 := exampleGroup False [])) 1
            = exampleHeap [exampleBlock 2 0 10 5, exampleBlock 3 10 20 5] 1"
    by blast
  from ProgressCalculate_changes_planned_groups_only
         [of 0 planAll exampleClock "[0]" "exampleHeap [exampleBlock 2 0 10 5]"] q
  have 2: "CompactionProgressCalculate (Suc 0) planAll exampleClock [0]
             (exampleHeap [exampleBlock 2 0 10 5])
           = Some (Nil, exampleHeap [exampleBlock 2 0 10 5], Some (0, 0))"
    by blast
  from 1 2 show ?thesis by simp
qed

end
